theory Spec2Isabelle
  imports Complex_Main "HOL-Library.Word"
begin

unbundle bit_operations_syntax

section \<open>Discrete-encoding utilities\<close>

text \<open>
  The source (index.ts, lines 321-358) converts between integer event codes, bit vectors
  and one-hot vectors. The event codes are JavaScript numbers holding integers, modelled
  as \<open>int\<close>. JavaScript's bitwise operators first convert their operands to 32-bit
  two's complement integers and take the shift count modulo 32; the result is again a
  signed 32-bit integer. \<open>depth\<close> only bounds a counting loop and is modelled as \<open>nat\<close>.
\<close>

definition js_shr :: "int \<Rightarrow> nat \<Rightarrow> int" where
  \<comment> \<open>\<^verbatim>\<open>x >> d\<close>\<close>
  "js_shr x d = sint (signed_drop_bit (d mod 32) (word_of_int x :: 32 word))"

definition js_shl :: "int \<Rightarrow> nat \<Rightarrow> int" where
  \<comment> \<open>\<^verbatim>\<open>x << d\<close>\<close>
  "js_shl x d = sint (push_bit (d mod 32) (word_of_int x :: 32 word))"

definition js_and :: "int \<Rightarrow> int \<Rightarrow> int" where
  \<comment> \<open>\<^verbatim>\<open>x & y\<close>\<close>
  "js_and x y = sint ((word_of_int x :: 32 word) AND word_of_int y)"

text \<open>
  \<^verbatim>\<open>
  for (let d = 0; d < depth; d++) { b.push(ints[i] >> d & 1); }
  if (ints[i] === 0) { b[depth - 1] = 1; }
  \<close>
  For \<open>depth = 0\<close> the assignment \<^verbatim>\<open>b[-1] = 1\<close> adds a property and no element, so the
  array stays empty.
\<close>

definition intsToBits_row :: "int \<Rightarrow> nat \<Rightarrow> int list" where
  "intsToBits_row x depth =
     (let b = foldl (\<lambda>b d. b @ [js_and (js_shr x d) 1]) [] [0..<depth]
      in if x = 0 \<and> 0 < depth then b[depth - 1 := 1] else b)"

definition intsToBits :: "int list \<Rightarrow> nat \<Rightarrow> int list list" where
  "intsToBits ints depth = map (\<lambda>x. intsToBits_row x depth) ints"

text \<open>
  \<^verbatim>\<open>
  let b = 0;
  for (let d = 0; d < bits[i].length; d++) { b += (bits[i][d] << d); }
  \<close>
\<close>

definition bitsToInts_row :: "int list \<Rightarrow> int" where
  "bitsToInts_row bs = foldl (\<lambda>b d. b + js_shl (bs ! d) d) 0 [0..<length bs]"

definition bitsToInts :: "int list list \<Rightarrow> int list" where
  "bitsToInts bits = map bitsToInts_row bits"

text \<open>
  \<^verbatim>\<open>
  for (let d = 0; d < depth; d++) { oh.push(d === ints[i] ? 1 : 0); }
  \<close>
\<close>

definition intsToOneHot_row :: "int \<Rightarrow> nat \<Rightarrow> int list" where
  "intsToOneHot_row x depth =
     foldl (\<lambda>oh d. oh @ [if int d = x then 1 else 0]) [] [0..<depth]"

definition intsToOneHot :: "int list \<Rightarrow> nat \<Rightarrow> int list list" where
  "intsToOneHot ints depth = map (\<lambda>x. intsToOneHot_row x depth) ints"

subsection \<open>Loops that push, loops that add\<close>

lemma foldl_push: "foldl (\<lambda>b d. b @ [f d]) acc [0..<n] = acc @ map f [0..<n]"
  by (induction n) simp_all

lemma foldl_plus: "foldl (\<lambda>b d. b + f d) (a::int) [0..<n] = a + (\<Sum>k = 0..<n. f k)"
  by (induction n) simp_all

subsection \<open>The bit operations on small values\<close>

lemma js_bit: "js_and (js_shr x d) 1 = of_bool (bit x (d mod 32))"
proof -
  let ?w = "signed_drop_bit (d mod 32) (word_of_int x :: 32 word)"
  have "bit ?w 0 = bit x (d mod 32)"
  proof -
    have "d mod 32 < 32" by simp
    then show ?thesis
      by (simp add: bit_signed_drop_bit_iff bit_word_of_int_iff del: mod_less_divisor)
  qed
  moreover have "word_of_int (sint ?w) AND (1 :: 32 word) = of_bool (bit ?w 0)"
    by (simp add: and_one_eq bit_0 mod_2_eq_odd)
  ultimately show ?thesis
    by (simp add: js_and_def js_shr_def)
qed

lemma sint_push_bit_one: "k < 31 \<Longrightarrow> sint (push_bit k (1 :: 32 word)) = 2 ^ k"
proof -
  assume k: "k < 31"
  have "(2::int) ^ k < 2 ^ 31" using k by (intro power_strict_increasing) simp_all
  moreover have "- (2 ^ 31) \<le> (2::int) ^ k"
    by (rule order_trans [of _ 0]) simp_all
  ultimately have "signed_take_bit 31 ((2::int) ^ k) = 2 ^ k"
    by (rule signed_take_bit_int_eq_self [rotated])
  moreover have "sint (push_bit k (1 :: 32 word))
      = signed_take_bit (LENGTH(32) - Suc 0) (push_bit k (sint (1 :: 32 word)))"
    by (rule signed_push_bit_eq)
  ultimately show ?thesis
    by (simp add: push_bit_eq_mult)
qed

lemma js_shl_bool: "k < 31 \<Longrightarrow> js_shl (of_bool p) k = of_bool p * 2 ^ k"
proof (cases p)
  case True
  assume "k < 31"
  then show ?thesis
    using True sint_push_bit_one [of k] by (simp add: js_shl_def)
next
  case False
  then show ?thesis by (simp add: js_shl_def)
qed

lemma js_shl_zero: "js_shl 0 k = 0"
  by (simp add: js_shl_def)

lemma bit_sum:
  "0 \<le> x \<Longrightarrow> x < 2 ^ n \<Longrightarrow> (\<Sum>k = 0..<n. of_bool (bit x k) * 2 ^ k) = (x::int)"
  using take_bit_sum [of n x]
  by (simp add: push_bit_eq_mult take_bit_int_eq_self mult.commute)

subsection \<open>Bit vectors\<close>

lemma intsToBits_row_nonzero:
  "x \<noteq> 0 \<Longrightarrow> intsToBits_row x depth = map (\<lambda>d. of_bool (bit x (d mod 32))) [0..<depth]"
  by (simp add: intsToBits_row_def foldl_push js_bit)

lemma intsToBits_row_zero:
  "0 < depth \<Longrightarrow> intsToBits_row 0 depth = (replicate depth 0)[depth - 1 := 1]"
  by (simp add: intsToBits_row_def foldl_push js_bit map_replicate_const)

lemma bitsToInts_row_sum: "bitsToInts_row bs = (\<Sum>k = 0..<length bs. js_shl (bs ! k) k)"
  by (simp add: bitsToInts_row_def foldl_plus)

lemma roundtrip_row:
  assumes d: "1 \<le> d" "d \<le> 32" and x: "0 < x" "x < 2 ^ (d - 1)"
  shows "bitsToInts_row (intsToBits_row x d) = x"
proof -
  have "(2::int) ^ (d - 1) \<le> 2 ^ 31"
    using d by (intro power_increasing) simp_all
  with x(2) have x31: "x < 2 ^ 31"
    by (rule less_le_trans)
  have nb: "\<not> bit x k" if "d - 1 \<le> k" for k
  proof -
    have "(2::int) ^ (d - 1) \<le> 2 ^ k"
      using that by (intro power_increasing) simp_all
    with x(2) have "x < 2 ^ k" by (rule less_le_trans)
    then show ?thesis using x(1) by (simp add: bit_iff_odd)
  qed
  have "bitsToInts_row (intsToBits_row x d) =
        (\<Sum>k = 0..<d. js_shl (of_bool (bit x (k mod 32))) k)"
    using x(1) by (simp add: bitsToInts_row_sum intsToBits_row_nonzero)
  also have "\<dots> = (\<Sum>k = 0..<d. of_bool (bit x k) * 2 ^ k)"
  proof (rule sum.cong [OF refl])
    fix k assume "k \<in> {0..<d}"
    then have k: "k < 32" using d by simp
    show "js_shl (of_bool (bit x (k mod 32))) k = of_bool (bit x k) * 2 ^ k"
    proof (cases "k < 31")
      case True
      then show ?thesis by (simp add: js_shl_bool)
    next
      case False
      then have "k = 31" using k by simp
      moreover have "\<not> bit x 31" using nb [of 31] d by simp
      ultimately show ?thesis by (simp add: js_shl_zero)
    qed
  qed
  also have "\<dots> = x"
  proof -
    have "(2::int) ^ (d - 1) \<le> 2 ^ d"
      by (intro power_increasing) simp_all
    with x(2) have "x < 2 ^ d" by (rule less_le_trans)
    with x(1) show ?thesis by (intro bit_sum) simp_all
  qed
  finally show ?thesis .
qed

lemma sum_single_update:
  assumes i: "i < n"
  shows "(\<Sum>k = 0..<n. f (((replicate n (0::int))[i := 1]) ! k) k)
         = f 1 i + (\<Sum>k \<in> {0..<n} - {i}. f 0 k)"
proof -
  let ?row = "(replicate n (0::int))[i := 1]"
  have "(\<Sum>k = 0..<n. f (?row ! k) k) = (\<Sum>k \<in> insert i ({0..<n} - {i}). f (?row ! k) k)"
    using i by (intro sum.cong) auto
  also have "\<dots> = f 1 i + (\<Sum>k \<in> {0..<n} - {i}. f (?row ! k) k)"
    using i by (subst sum.insert) simp_all
  also have "(\<Sum>k \<in> {0..<n} - {i}. f (?row ! k) k) = (\<Sum>k \<in> {0..<n} - {i}. f 0 k)"
    by (intro sum.cong) auto
  finally show ?thesis .
qed

lemma zero_row:
  assumes d: "1 \<le> d" "d \<le> 31"
  shows "bitsToInts_row (intsToBits_row 0 d) = 2 ^ (d - 1)"
proof -
  have "bitsToInts_row (intsToBits_row 0 d)
        = js_shl 1 (d - 1) + (\<Sum>k \<in> {0..<d} - {d - 1}. js_shl 0 k)"
    using d
    by (simp add: bitsToInts_row_sum intsToBits_row_zero sum_single_update [where f = js_shl])
  also have "\<dots> = 2 ^ (d - 1)"
    using d js_shl_bool [of "d - 1" True] by (simp add: js_shl_zero)
  finally show ?thesis .
qed

text \<open>
  Claim C3, as the code has it. For every depth \<open>d\<close> from 1 to 32 and every integer
  \<open>x\<close> with \<open>0 < x < 2 ^ (d - 1)\<close>, \<open>bitsToInts (intsToBits [x] d) = [x]\<close>; for
  \<open>x = 0\<close> and every depth from 1 to 31 the composition yields \<open>2 ^ (d - 1)\<close>, because
  \<open>intsToBits\<close> emits the low \<open>d\<close> bits, least significant first, and sets index
  \<open>d - 1\<close> to 1 exactly when the input is 0. The bounds on the depth come from
  JavaScript's 32-bit shifts.
\<close>

theorem bits_roundtrip:
  "(1 \<le> d \<and> d \<le> 32 \<and> 0 < x \<and> x < 2 ^ (d - 1) \<longrightarrow> bitsToInts (intsToBits [x] d) = [x]) \<and>
   (1 \<le> d \<and> d \<le> 31 \<longrightarrow> bitsToInts (intsToBits [0] d) = [2 ^ (d - 1)]) \<and>
   (1 \<le> d \<longrightarrow> intsToBits [x] d =
      [if x = 0 then (replicate d 0)[d - 1 := 1]
       else map (\<lambda>k. of_bool (bit x (k mod 32))) [0..<d]])"
proof (intro conjI impI)
  assume "1 \<le> d \<and> d \<le> 32 \<and> 0 < x \<and> x < 2 ^ (d - 1)"
  then have "bitsToInts_row (intsToBits_row x d) = x"
    by (intro roundtrip_row) simp_all
  then show "bitsToInts (intsToBits [x] d) = [x]"
    by (simp add: bitsToInts_def intsToBits_def)
next
  assume "1 \<le> d \<and> d \<le> 31"
  then have "bitsToInts_row (intsToBits_row 0 d) = 2 ^ (d - 1)"
    by (intro zero_row) simp_all
  then show "bitsToInts (intsToBits [0] d) = [2 ^ (d - 1)]"
    by (simp add: bitsToInts_def intsToBits_def)
next
  assume "1 \<le> d"
  then have "intsToBits_row 0 d = (replicate d 0)[d - 1 := 1]"
    by (intro intsToBits_row_zero) simp
  then show "intsToBits [x] d =
      [if x = 0 then (replicate d 0)[d - 1 := 1]
       else map (\<lambda>k. of_bool (bit x (k mod 32))) [0..<d]]"
    by (simp add: intsToBits_def intsToBits_row_nonzero)
qed

theorem bits_roundtrip_witness:
  "bitsToInts (intsToBits [5] 4) = [5] \<and> bitsToInts (intsToBits [0] 4) = [8]"
  using bits_roundtrip [of 4 5, THEN conjunct1]
    bits_roundtrip [of 4 0, THEN conjunct2, THEN conjunct1]
  by simp

text \<open>
  The claim as it is written (every depth \<open>d \<ge> 1\<close>) fails: at depth 33 the shift count
  wraps to 0, so 1 comes back as 2; at depth 32 the sentinel bit is the sign bit, so 0
  comes back as \<open>- 2 ^ 31\<close>.
\<close>

theorem bits_roundtrip_counterexample:
  "(1::nat) \<le> 33 \<and> (0::int) < 1 \<and> (1::int) < 2 ^ (33 - 1) \<and>
   bitsToInts (intsToBits [1] 33) = [2] \<and>
   bitsToInts (intsToBits [0] 32) = [- 2147483648] \<and>
   bitsToInts (intsToBits [0] 32) \<noteq> [2 ^ (32 - 1)]"
  by code_simp

subsection \<open>One-hot vectors\<close>

lemma intsToOneHot_row_eq:
  "intsToOneHot_row x d = map (\<lambda>k. if int k = x then 1 else 0) [0..<d]"
  by (simp add: intsToOneHot_row_def foldl_push)

lemma count_one_hot:
  "count_list (map (\<lambda>k. if int k = x then 1 else (0::int)) [0..<d]) 1
   = (if 0 \<le> x \<and> x < int d then 1 else 0)"
  by (induction d) auto

lemma one_hot_zero_iff:
  "map (\<lambda>k. if int k = x then 1 else (0::int)) [0..<d] = replicate d 0
   \<longleftrightarrow> (x < 0 \<or> int d \<le> x)"
proof
  assume eq: "map (\<lambda>k. if int k = x then 1 else (0::int)) [0..<d] = replicate d 0"
  show "x < 0 \<or> int d \<le> x"
  proof (rule ccontr)
    assume "\<not> (x < 0 \<or> int d \<le> x)"
    then have n: "nat x < d" "int (nat x) = x" by (auto simp: nat_less_iff)
    from eq have "map (\<lambda>k. if int k = x then 1 else (0::int)) [0..<d] ! nat x
                  = replicate d 0 ! nat x"
      by simp
    with n show False by simp
  qed
next
  assume "x < 0 \<or> int d \<le> x"
  then show "map (\<lambda>k. if int k = x then 1 else (0::int)) [0..<d] = replicate d 0"
    by (auto simp: list_eq_iff_nth_eq)
qed

text \<open>
  Claim C10. For every depth \<open>d\<close> and every integer outside \<open>[0, d)\<close>, \<open>intsToOneHot\<close>
  returns for that integer a row of exactly \<open>d\<close> zeros and raises no error (the function
  is total); a row holds exactly one 1 only for an input inside \<open>[0, d)\<close>, and no 1
  otherwise.
\<close>

theorem intsToOneHot_out_of_range:
  "length (intsToOneHot xs d) = length xs \<and>
   (\<forall>i < length xs.
      length (intsToOneHot xs d ! i) = d \<and>
      (xs ! i < 0 \<or> int d \<le> xs ! i \<longrightarrow> intsToOneHot xs d ! i = replicate d 0) \<and>
      (intsToOneHot xs d ! i = replicate d 0 \<longrightarrow> xs ! i < 0 \<or> int d \<le> xs ! i) \<and>
      count_list (intsToOneHot xs d ! i) 1 = (if 0 \<le> xs ! i \<and> xs ! i < int d then 1 else 0))"
  by (simp add: intsToOneHot_def intsToOneHot_row_eq count_one_hot one_hot_zero_iff)

theorem intsToOneHot_out_of_range_witness:
  "intsToOneHot [- 1, 3, 1] 3 = [[0, 0, 0], [0, 0, 0], [0, 1, 0]] \<and>
   count_list (intsToOneHot [- 1, 3, 1] 3 ! 0) 1 = 0 \<and>
   count_list (intsToOneHot [- 1, 3, 1] 3 ! 2) 1 = 1"
  using intsToOneHot_out_of_range [of "[- 1, 3, 1]" 3]
  by (simp add: intsToOneHot_def intsToOneHot_row_eq upt_rec)

section \<open>The tensor runtime\<close>

text \<open>
  The model code (index.ts, lines 17-319) is written against the deeplearn tensor runtime,
  which is not part of the repository. This section models the operations the source calls,
  by their documented behaviour:
  \<^item> a tensor of rank 1, 2 or 3 is a list, a list of rows, a list of matrices;
    \<open>is2 m n t\<close> says that \<open>t\<close> has shape \<open>[m, n]\<close>. A tensor with an empty leading
    axis carries no further widths in this representation (\<open>cols\<close> reads the first row),
    so the theorems below ask for a non-empty batch where a width matters;
  \<^item> the entries are float32 numbers in the source and real numbers here: arithmetic is
    exact, rounding, overflow and NaN are not modelled;
  \<^item> an operation that the runtime rejects (operands whose shapes do not fit, a slice out
    of range, fewer than two tensors to stack) returns \<open>Inl RuntimeError\<close>; reading a property of
    \<^verbatim>\<open>undefined\<close> or \<^verbatim>\<open>null\<close> returns \<open>Inl TypeError\<close>; the source's own
    \<^verbatim>\<open>throw new Error(msg)\<close> returns \<open>Inl (Thrown msg)\<close>; \<open>Inl (IllTyped name)\<close> is not an
    error of the program: it marks the one place where this typed model does not follow the
    source, a checkpoint tensor cast to a rank it does not have (see \<open>asTensor2D\<close>);
  \<^item> \<^verbatim>\<open>dl.tidy\<close> only releases intermediate tensors and has no counterpart here.
\<close>

datatype error = Thrown string | TypeError | RuntimeError | IllTyped string

type_synonym tensor1 = "real list"
type_synonym tensor2 = "real list list"
type_synonym tensor3 = "real list list list"

text \<open>Sequencing: the first error ends the computation, as an exception does.\<close>

fun bindE :: "error + 'a \<Rightarrow> ('a \<Rightarrow> error + 'b) \<Rightarrow> error + 'b" where
  "bindE (Inl e) f = Inl e"
| "bindE (Inr v) f = f v"

fun mapE :: "('a \<Rightarrow> error + 'b) \<Rightarrow> 'a list \<Rightarrow> error + 'b list" where
  "mapE f [] = Inr []"
| "mapE f (x # xs) = bindE (f x) (\<lambda>y. bindE (mapE f xs) (\<lambda>ys. Inr (y # ys)))"

fun foldE :: "('s \<Rightarrow> 'a \<Rightarrow> error + 's) \<Rightarrow> 's \<Rightarrow> 'a list \<Rightarrow> error + 's" where
  "foldE f s [] = Inr s"
| "foldE f s (x # xs) = bindE (f s x) (\<lambda>s'. foldE f s' xs)"

text \<open>A value that may be \<^verbatim>\<open>undefined\<close> (\<open>None\<close>) is used: a TypeError if it is.\<close>

definition defined :: "'a option \<Rightarrow> error + 'a" where
  "defined v = (case v of None \<Rightarrow> Inl TypeError | Some x \<Rightarrow> Inr x)"

definition cols :: "'a list list \<Rightarrow> nat" where
  "cols t = (case t of [] \<Rightarrow> 0 | r # _ \<Rightarrow> length r)"

definition is2 :: "nat \<Rightarrow> nat \<Rightarrow> 'a list list \<Rightarrow> bool" where
  "is2 m n t \<longleftrightarrow> length t = m \<and> list_all (\<lambda>r. length r = n) t"

definition is3 :: "nat \<Rightarrow> nat \<Rightarrow> nat \<Rightarrow> 'a list list list \<Rightarrow> bool" where
  "is3 l m n t \<longleftrightarrow> length t = l \<and> list_all (is2 m n) t"

text \<open>
  Modelled from the spec: the runtime's element-wise operations (spec section 1 names the
  runtime an external collaborator providing "elementwise/matrix numeric primitives").
  \<^verbatim>\<open>add\<close>, \<^verbatim>\<open>sub\<close> and \<^verbatim>\<open>mul\<close> broadcast: along each axis the two sizes are equal, or one
  of them is 1 and that operand is repeated. A tensor of lower rank is read with leading axes
  of size 1, so a bias \<open>b\<close> added to a matrix is \<open>add2 m [b]\<close>. The strict variants
  (\<^verbatim>\<open>addStrict\<close>, \<^verbatim>\<open>mulStrict\<close>) require equal shapes.
\<close>

definition broadcast :: "('a \<Rightarrow> 'b \<Rightarrow> error + 'c) \<Rightarrow> 'a list \<Rightarrow> 'b list \<Rightarrow> error + 'c list" where
  "broadcast f xs ys =
     (if length xs = length ys then mapE (\<lambda>(x, y). f x y) (zip xs ys)
      else if length xs = 1 then mapE (\<lambda>y. f (hd xs) y) ys
      else if length ys = 1 then mapE (\<lambda>x. f x (hd ys)) xs
      else Inl RuntimeError)"

definition add1 :: "tensor1 \<Rightarrow> tensor1 \<Rightarrow> error + tensor1" where
  "add1 = broadcast (\<lambda>x y. Inr (x + y))"

definition add2 :: "tensor2 \<Rightarrow> tensor2 \<Rightarrow> error + tensor2" where
  "add2 = broadcast add1"

definition sub1 :: "tensor1 \<Rightarrow> tensor1 \<Rightarrow> error + tensor1" where
  "sub1 = broadcast (\<lambda>x y. Inr (x - y))"

definition mul1 :: "tensor1 \<Rightarrow> tensor1 \<Rightarrow> error + tensor1" where
  "mul1 = broadcast (\<lambda>x y. Inr (x * y))"

definition mul3 :: "tensor3 \<Rightarrow> tensor3 \<Rightarrow> error + tensor3" where
  "mul3 = broadcast (broadcast mul1)"

definition sameShape2 :: "'a list list \<Rightarrow> 'b list list \<Rightarrow> bool" where
  "sameShape2 a b \<longleftrightarrow> length a = length b \<and> cols a = cols b"

definition strict2 :: "(real \<Rightarrow> real \<Rightarrow> real) \<Rightarrow> tensor2 \<Rightarrow> tensor2 \<Rightarrow> error + tensor2" where
  "strict2 f a b = (if sameShape2 a b then Inr (map2 (map2 f) a b) else Inl RuntimeError)"

definition addStrict :: "tensor2 \<Rightarrow> tensor2 \<Rightarrow> error + tensor2" where
  "addStrict = strict2 (+)"

definition mulStrict :: "tensor2 \<Rightarrow> tensor2 \<Rightarrow> error + tensor2" where
  "mulStrict = strict2 (*)"

definition addStrict3 :: "tensor3 \<Rightarrow> tensor3 \<Rightarrow> error + tensor3" where
  "addStrict3 a b =
     (if length a = length b \<and> cols a = cols b \<and> cols (concat a) = cols (concat b)
      then Inr (map2 (map2 (map2 (+))) a b) else Inl RuntimeError)"

text \<open>
  Modelled from the spec: the runtime's numeric primitives. \<open>matMul a b transposeA transposeB\<close>
  requires the inner dimensions to agree; \<open>slice\<close> requires \<open>start + size\<close> to stay inside
  every axis; \<open>reshape2D\<close> and \<open>reshape3D\<close> (\<^verbatim>\<open>as2D\<close>, \<^verbatim>\<open>as3D\<close> applied to the
  flattened values; \<^verbatim>\<open>as1D\<close> is \<open>concat\<close>) require the number of values to be kept;
  \<open>stack1\<close> and \<open>stack2\<close> are \<^verbatim>\<open>dl.stack(ts, 1)\<close> on tensors of rank 1 and 2 and require
  at least two tensors, all of one shape; \<open>concat2d a b\<close> is \<^verbatim>\<open>dl.concat2d([a, b], 1)\<close> and
  requires equally many rows; \<open>argMax\<close> is \<^verbatim>\<open>argMax(1)\<close>, the first index of the greatest
  entry of each row; \<open>oneHot\<close> requires a depth of at least 2; \<open>linspace\<close> requires at
  least one sample and accumulates the step.
\<close>

definition sigmoid :: "real \<Rightarrow> real" where
  "sigmoid x = 1 / (1 + exp (- x))"

definition dot :: "tensor1 \<Rightarrow> tensor1 \<Rightarrow> real" where
  "dot u v = sum_list (map2 (*) u v)"

definition transpose2 :: "'a list list \<Rightarrow> 'a list list" where
  "transpose2 t = map (\<lambda>j. map (\<lambda>r. r ! j) t) [0..<cols t]"

definition matMul :: "tensor2 \<Rightarrow> tensor2 \<Rightarrow> bool \<Rightarrow> bool \<Rightarrow> error + tensor2" where
  "matMul a b transposeA transposeB =
     (let a' = (if transposeA then transpose2 a else a);
          bT = (if transposeB then b else transpose2 b);
          innerA = cols a';
          innerB = (if transposeB then cols b else length b)
      in if innerA = innerB then Inr (map (\<lambda>r. map (dot r) bT) a') else Inl RuntimeError)"

definition slice2D :: "'a list list \<Rightarrow> nat \<times> nat \<Rightarrow> nat \<times> nat \<Rightarrow> error + 'a list list" where
  "slice2D t start sz =
     (if fst start + fst sz \<le> length t \<and> snd start + snd sz \<le> cols t
      then Inr (map (\<lambda>r. take (snd sz) (drop (snd start) r)) (take (fst sz) (drop (fst start) t)))
      else Inl RuntimeError)"

definition slice3D :: "tensor3 \<Rightarrow> nat \<times> nat \<times> nat \<Rightarrow> nat \<times> nat \<times> nat \<Rightarrow> error + tensor3" where
  "slice3D t start sz =
     (case (start, sz) of ((a0, b0, c0), (na, nb, nc)) \<Rightarrow>
        if a0 + na \<le> length t \<and> b0 + nb \<le> cols t \<and> c0 + nc \<le> cols (concat t)
        then Inr (map (\<lambda>p. map (\<lambda>r. take nc (drop c0 r)) (take nb (drop b0 p)))
                    (take na (drop a0 t)))
        else Inl RuntimeError)"

definition chunk :: "nat \<Rightarrow> nat \<Rightarrow> 'a list \<Rightarrow> 'a list list" where
  "chunk n w xs = map (\<lambda>i. take w (drop (i * w) xs)) [0..<n]"

definition reshape2D :: "'a list \<Rightarrow> nat \<Rightarrow> nat \<Rightarrow> error + 'a list list" where
  "reshape2D flat r c = (if length flat = r * c then Inr (chunk r c flat) else Inl RuntimeError)"

definition reshape3D :: "'a list \<Rightarrow> nat \<Rightarrow> nat \<Rightarrow> nat \<Rightarrow> error + 'a list list list" where
  "reshape3D flat r c d =
     (if length flat = r * c * d then Inr (map (chunk c d) (chunk r (c * d) flat))
      else Inl RuntimeError)"

definition stack1 :: "'a list list \<Rightarrow> error + 'a list list" where
  "stack1 ts =
     (if length ts < 2 then Inl RuntimeError
      else if list_all (\<lambda>s. length s = length (hd ts)) ts
      then Inr (map (\<lambda>b. map (\<lambda>s. s ! b) ts) [0..<length (hd ts)])
      else Inl RuntimeError)"

definition stack2 :: "'a list list list \<Rightarrow> error + 'a list list list" where
  "stack2 ts =
     (if length ts < 2 then Inl RuntimeError
      else if list_all (\<lambda>s. sameShape2 s (hd ts)) ts
      then Inr (map (\<lambda>b. map (\<lambda>s. s ! b) ts) [0..<length (hd ts)])
      else Inl RuntimeError)"

definition concat2d :: "tensor2 \<Rightarrow> tensor2 \<Rightarrow> error + tensor2" where
  "concat2d a b = (if length a = length b then Inr (map2 (@) a b) else Inl RuntimeError)"

definition argMaxRow :: "real list \<Rightarrow> nat" where
  "argMaxRow v =
     (case v of
        [] \<Rightarrow> 0
      | x # _ \<Rightarrow> fst (foldl (\<lambda>(i, m) j. if m < v ! j then (j, v ! j) else (i, m)) (0, x)
                        [1..<length v]))"

definition argMax :: "tensor2 \<Rightarrow> nat list" where
  "argMax t = map argMaxRow t"

definition oneHot :: "nat list \<Rightarrow> nat \<Rightarrow> error + tensor2" where
  "oneHot labels depth =
     (if depth < 2 then Inl RuntimeError
      else Inr (map (\<lambda>l. map (\<lambda>d. if d = l then 1 else 0) [0..<depth]) labels))"

definition zeros :: "nat \<Rightarrow> nat \<Rightarrow> tensor2" where
  "zeros m n = replicate m (replicate n 0)"

definition linspace :: "real \<Rightarrow> real \<Rightarrow> nat \<Rightarrow> error + tensor1" where
  "linspace start stop num =
     (if num = 0 then Inl RuntimeError
      else let step = (stop - start) / real (num - 1)
           in Inr (foldl (\<lambda>vs i. vs @ [last vs + step]) [start] [1..<num]))"

definition outerProduct :: "tensor1 \<Rightarrow> tensor1 \<Rightarrow> tensor2" where
  "outerProduct u v = map (\<lambda>x. map (\<lambda>y. x * y) v) u"

definition greaterEqual :: "tensor2 \<Rightarrow> real \<Rightarrow> bool list list" where
  "greaterEqual t c = map (map (\<lambda>x. c \<le> x)) t"

definition toFloat :: "bool list list \<Rightarrow> tensor2" where
  "toFloat t = map (map of_bool) t"

text \<open>
  A \<^verbatim>\<open>dl.Tensor\<close> whose rank is not known statically, as the checkpoint loader returns it:
  the shape and the entries in row-major order (the runtime keeps as many entries as the
  product of the shape). \<open>shapeAt t i\<close> is \<^verbatim>\<open>t.shape[i]\<close>, \<^verbatim>\<open>undefined\<close> beyond the rank.
  \<open>as2D t rows columns\<close> is \<^verbatim>\<open>t.as2D(rows, columns)\<close>: the runtime rejects a new shape that
  does not keep the number of entries, as every shape with an \<^verbatim>\<open>undefined\<close> size does.
\<close>

datatype tensor = Tensor (shape: "nat list") (entries: "real list")

definition rank :: "tensor \<Rightarrow> nat" where
  "rank t = length (shape t)"

definition shapeAt :: "tensor \<Rightarrow> nat \<Rightarrow> nat option" where
  "shapeAt t i = (if i < rank t then Some (shape t ! i) else None)"

definition as2D :: "tensor \<Rightarrow> nat option \<Rightarrow> nat option \<Rightarrow> error + tensor2" where
  "as2D t rows columns =
     (case (rows, columns) of
        (Some r, Some c) \<Rightarrow> reshape2D (entries t) r c
      | _ \<Rightarrow> Inl RuntimeError)"

text \<open>\<^verbatim>\<open>const forgetBias = dl.scalar(1.0);\<close>\<close>

definition forgetBias :: real where
  "forgetBias = 1"

text \<open>
  Modelled from the spec: the runtime's recurrent cell \<^verbatim>\<open>dl.basicLSTMCell\<close> (spec section
  4.2). The input and the hidden state are concatenated and transformed by kernel and bias;
  the result is split into four equal chunks, in the order input gate, new gate, forget gate,
  output gate; \<open>c' = c * sigmoid (forgetGate + fb) + sigmoid inputGate * tanh newGate\<close> and
  \<open>h' = tanh c' * sigmoid outputGate\<close>. A width that is not a multiple of 4 gives a fractional
  chunk width, which the runtime cannot slice.
\<close>

definition basicLSTMCell ::
  "real \<Rightarrow> tensor2 option \<Rightarrow> tensor1 option \<Rightarrow> tensor2 \<Rightarrow> tensor2 \<Rightarrow> tensor2
   \<Rightarrow> error + (tensor2 \<times> tensor2)" where
  "basicLSTMCell fb lstmKernel lstmBias data c h =
     bindE (concat2d data h) (\<lambda>combined.
     bindE (defined lstmKernel) (\<lambda>k.
     bindE (matMul combined k False False) (\<lambda>weighted.
     bindE (defined lstmBias) (\<lambda>b.
     bindE (add2 weighted [b]) (\<lambda>res.
       if \<not> 4 dvd cols res then Inl RuntimeError
       else
         let batchSize = length res; sliceCols = cols res div 4 in
         bindE (slice2D res (0, 0) (batchSize, sliceCols)) (\<lambda>ig.
         bindE (slice2D res (0, sliceCols) (batchSize, sliceCols)) (\<lambda>jg.
         bindE (slice2D res (0, sliceCols * 2) (batchSize, sliceCols)) (\<lambda>fg.
         bindE (slice2D res (0, sliceCols * 3) (batchSize, sliceCols)) (\<lambda>og.
         bindE (mulStrict c (map (map sigmoid) (map (map (\<lambda>x. fb + x)) fg))) (\<lambda>keep.
         bindE (mulStrict (map (map sigmoid) ig) (map (map tanh) jg)) (\<lambda>fresh.
         bindE (addStrict keep fresh) (\<lambda>newC.
         bindE (mulStrict (map (map tanh) newC) (map (map sigmoid) og)) (\<lambda>newH.
         Inr (newC, newH))))))))))))))"

text \<open>
  Modelled from the spec: \<^verbatim>\<open>dl.multiRNNCell\<close> (spec section 4.5, step 3a). Layer 0
  consumes the input, each later layer the new hidden state of the layer before; every layer
  updates its own cell state and hidden state.
\<close>

type_synonym LSTMCell = "tensor2 \<Rightarrow> tensor2 \<Rightarrow> tensor2 \<Rightarrow> error + (tensor2 \<times> tensor2)"

fun multiRNNCell ::
  "LSTMCell list \<Rightarrow> tensor2 \<Rightarrow> tensor2 list \<Rightarrow> tensor2 list \<Rightarrow> error + (tensor2 list \<times> tensor2 list)" where
  "multiRNNCell [] data c h = Inr ([], [])"
| "multiRNNCell (cell # cells) data (ci # c) (hi # h) =
     bindE (cell data ci hi) (\<lambda>(newC, newH).
     bindE (multiRNNCell cells newH c h) (\<lambda>(cs, hs). Inr (newC # cs, newH # hs)))"
| "multiRNNCell (cell # cells) data c h = Inl TypeError"

section \<open>The model\<close>

text \<open>
  The classes of index.ts. A field bound from the checkpoint may be \<^verbatim>\<open>undefined\<close>
  (\<^verbatim>\<open>initialize\<close> reads \<^verbatim>\<open>vars[name]\<close> without a check), so the fields of \<open>LayerVars\<close> are
  options. \<^verbatim>\<open>dense\<close> is \<^verbatim>\<open>inputs.matMul(vars.kernel).add(vars.bias)\<close>.
\<close>

record LayerVars =
  kernel :: "tensor2 option"
  bias :: "tensor1 option"

definition dense :: "LayerVars \<Rightarrow> tensor2 \<Rightarrow> error + tensor2" where
  "dense vars inputs =
     bindE (defined (kernel vars)) (\<lambda>k.
     bindE (matMul inputs k False False) (\<lambda>m.
     bindE (defined (bias vars)) (\<lambda>b. add2 m [b])))"

text \<open>
  \<^verbatim>\<open>class Nade\<close> (lines 36-79). The constructor reads \<open>numDims\<close> and \<open>numHidden\<close> from axes 0
  and 2 of \<^verbatim>\<open>encWeights\<close> and reshapes both weights to \<open>[numDims, numHidden]\<close>; it is given
  the tensors as the checkpoint holds them, and where a reshape succeeds both sizes are
  defined. One iteration
  of the loop of \<^verbatim>\<open>sample\<close> is \<open>Nade_sample_step\<close>; its state is the accumulator \<open>a\<close> and the
  samples pushed so far.
\<close>

record Nade =
  encWeights :: tensor2
  decWeightsT :: tensor2
  numDims :: nat
  numHidden :: nat

definition new_Nade :: "tensor option \<Rightarrow> tensor option \<Rightarrow> error + Nade" where
  "new_Nade encWeights3 decWeightsT3 =
     bindE (defined encWeights3) (\<lambda>encW.
     let nd = shapeAt encW 0; nh = shapeAt encW 2 in
     bindE (as2D encW nd nh) (\<lambda>e.
     bindE (defined decWeightsT3) (\<lambda>decW.
     bindE (as2D decW nd nh) (\<lambda>d.
     Inr \<lparr>encWeights = e, decWeightsT = d, numDims = the nd, numHidden = the nh\<rparr>))))"

definition Nade_sample_step ::
  "Nade \<Rightarrow> tensor2 \<Rightarrow> nat \<Rightarrow> tensor2 \<times> tensor1 list \<Rightarrow> nat \<Rightarrow> error + (tensor2 \<times> tensor1 list)" where
  "Nade_sample_step n decBias batchSize st i =
     (case st of (a, samples) \<Rightarrow>
        let h = map (map sigmoid) a in
        bindE (slice2D (encWeights n) (i, 0) (1, numHidden n)) (\<lambda>encSlice.
        let encWeightsI = concat encSlice in
        bindE (slice2D (decWeightsT n) (i, 0) (1, numHidden n)) (\<lambda>decWeightsTI.
        bindE (slice2D decBias (0, i) (batchSize, 1)) (\<lambda>decBiasI.
        bindE (matMul h decWeightsTI False True) (\<lambda>hw.
        bindE (add2 decBiasI hw) (\<lambda>condLogitsI.
        let condProbsI = map (map sigmoid) condLogitsI;
            samplesI = concat (toFloat (greaterEqual condProbsI (1 / 2)))
        in
        bindE (if i < numDims n - 1 then add2 a (outerProduct samplesI encWeightsI) else Inr a)
          (\<lambda>a'. Inr (a', samples @ [samplesI]))))))))"

definition Nade_sample :: "Nade \<Rightarrow> tensor2 \<Rightarrow> tensor2 \<Rightarrow> error + tensor2" where
  "Nade_sample n encBias decBias =
     (let batchSize = length encBias in
      bindE (foldE (Nade_sample_step n decBias batchSize) (encBias, []) [0..<numDims n])
        (\<lambda>(a, samples). stack1 samples))"

text \<open>
  \<^verbatim>\<open>class Encoder\<close> (lines 81-125). \<open>quarter\<close> is \<^verbatim>\<open>bias.shape[0] / 4\<close>, the width of the
  states; a length that is not a multiple of 4 gives no tensor shape. \<open>lstm\<close> is the closure
  of \<^verbatim>\<open>runLstm\<close>, and \<open>runLstm_step\<close> one iteration of its loop.
\<close>

record Encoder =
  lstmFwVars :: LayerVars
  lstmBwVars :: LayerVars
  muVars :: LayerVars
  enc_zDims :: nat

definition new_Encoder :: "LayerVars \<Rightarrow> LayerVars \<Rightarrow> LayerVars \<Rightarrow> error + Encoder" where
  "new_Encoder fw bw mu =
     bindE (defined (bias mu)) (\<lambda>b.
     Inr \<lparr>lstmFwVars = fw, lstmBwVars = bw, muVars = mu, enc_zDims = length b\<rparr>)"

definition quarter :: "nat \<Rightarrow> error + nat" where
  "quarter n = (if 4 dvd n then Inr (n div 4) else Inl RuntimeError)"

definition lstm :: "LayerVars \<Rightarrow> tensor2 \<Rightarrow> tensor2 \<times> tensor2 \<Rightarrow> error + (tensor2 \<times> tensor2)" where
  "lstm lstmVars data state =
     basicLSTMCell forgetBias (kernel lstmVars) (bias lstmVars) data (fst state) (snd state)"

definition runLstm_step ::
  "tensor3 \<Rightarrow> LayerVars \<Rightarrow> bool \<Rightarrow> tensor2 \<times> tensor2 \<Rightarrow> nat \<Rightarrow> error + (tensor2 \<times> tensor2)" where
  "runLstm_step inputs lstmVars reverse state i =
     (let batchSize = length inputs; len = cols inputs; outputSize = cols (concat inputs);
          index = (if reverse then len - 1 - i else i)
      in
      bindE (slice3D inputs (0, index, 0) (batchSize, 1, outputSize)) (\<lambda>sl.
      bindE (reshape2D (concat (concat sl)) batchSize outputSize) (\<lambda>data.
      lstm lstmVars data state)))"

definition runLstm :: "tensor3 \<Rightarrow> LayerVars \<Rightarrow> bool \<Rightarrow> error + (tensor2 \<times> tensor2)" where
  "runLstm inputs lstmVars reverse =
     (let batchSize = length inputs; len = cols inputs in
      bindE (defined (bias lstmVars)) (\<lambda>b.
      bindE (quarter (length b)) (\<lambda>w.
      foldE (runLstm_step inputs lstmVars reverse) (zeros batchSize w, zeros batchSize w)
        [0..<len])))"

definition Encoder_encode :: "Encoder \<Rightarrow> tensor3 \<Rightarrow> error + tensor2" where
  "Encoder_encode e sequence =
     bindE (runLstm sequence (lstmFwVars e) False) (\<lambda>fwState.
     bindE (runLstm sequence (lstmBwVars e) True) (\<lambda>bwState.
     bindE (concat2d (snd fwState) (snd bwState)) (\<lambda>finalState.
     dense (muVars e) finalState)))"

text \<open>\<^verbatim>\<open>class Decoder\<close> (lines 127-197).\<close>

record Decoder =
  lstmCellVars :: "LayerVars list"
  zToInitStateVars :: LayerVars
  outputProjectVars :: LayerVars
  dec_zDims :: nat
  outputDims :: nat
  nade :: "Nade option"

definition new_Decoder ::
  "LayerVars list \<Rightarrow> LayerVars \<Rightarrow> LayerVars \<Rightarrow> Nade option \<Rightarrow> error + Decoder" where
  "new_Decoder cells zToInit outProj nd =
     bindE (defined (kernel zToInit)) (\<lambda>k.
     bindE (case nd of Some n \<Rightarrow> Inr (numDims n)
            | None \<Rightarrow> bindE (defined (bias outProj)) (\<lambda>b. Inr (length b))) (\<lambda>od.
     Inr \<lparr>lstmCellVars = cells, zToInitStateVars = zToInit, outputProjectVars = outProj,
          dec_zDims = length k, outputDims = od, nade = nd\<rparr>))"

text \<open>The first loop of decode: one cell, one cell state and one hidden state per layer.\<close>

definition decode_init_step ::
  "tensor2 \<Rightarrow> nat \<Rightarrow> LSTMCell list \<times> tensor2 list \<times> tensor2 list \<times> nat \<Rightarrow> LayerVars
   \<Rightarrow> error + (LSTMCell list \<times> tensor2 list \<times> tensor2 list \<times> nat)" where
  "decode_init_step initialStates batchSize st lv =
     (case st of (lstmCells, c, h, stateOffset) \<Rightarrow>
        bindE (defined (bias lv)) (\<lambda>b.
        bindE (quarter (length b)) (\<lambda>stateWidth.
        let cell = (\<lambda>data c h. lstm lv data (c, h)) in
        bindE (slice2D initialStates (0, stateOffset) (batchSize, stateWidth)) (\<lambda>ci.
        bindE (slice2D initialStates (0, stateOffset + stateWidth) (batchSize, stateWidth)) (\<lambda>hi.
        Inr (lstmCells @ [cell], c @ [ci], h @ [hi], stateOffset + stateWidth + stateWidth))))))"

text \<open>The second loop: one time step.\<close>

definition decode_step ::
  "Decoder \<Rightarrow> tensor2 \<Rightarrow> nat \<Rightarrow> LSTMCell list
   \<Rightarrow> tensor2 list \<times> tensor2 list \<times> tensor2 \<times> tensor2 list \<Rightarrow> nat
   \<Rightarrow> error + (tensor2 list \<times> tensor2 list \<times> tensor2 \<times> tensor2 list)" where
  "decode_step d z batchSize lstmCells st i =
     (case st of (c, h, nextInput, samples) \<Rightarrow>
        bindE (concat2d nextInput z) (\<lambda>inp.
        bindE (multiRNNCell lstmCells inp c h) (\<lambda>(c', h').
        bindE (if h' = [] then Inl TypeError else dense (outputProjectVars d) (last h')) (\<lambda>logits.
        case nade d of
          None \<Rightarrow>
            let timeLabels = argMax logits in
            bindE (oneHot timeLabels (outputDims d)) (\<lambda>nextInput'.
            bindE (reshape2D (map real timeLabels) batchSize 1) (\<lambda>timeSamples.
            Inr (c', h', nextInput', samples @ [timeSamples])))
        | Some n \<Rightarrow>
            bindE (slice2D logits (0, 0) (batchSize, numHidden n)) (\<lambda>encBias.
            bindE (slice2D logits (0, numHidden n) (batchSize, numDims n)) (\<lambda>decBias.
            bindE (Nade_sample n encBias decBias) (\<lambda>nextInput'.
            Inr (c', h', nextInput', samples @ [nextInput']))))))))"

definition Decoder_decode :: "Decoder \<Rightarrow> tensor2 \<Rightarrow> nat \<Rightarrow> error + tensor3" where
  "Decoder_decode d z len =
     (let batchSize = length z in
      bindE (dense (zToInitStateVars d) z) (\<lambda>pre.
      let initialStates = map (map tanh) pre in
      bindE (foldE (decode_init_step initialStates batchSize) ([], [], [], 0) (lstmCellVars d))
        (\<lambda>(lstmCells, c, h, stateOffset).
      let nextInput = zeros batchSize (outputDims d) in
      bindE (foldE (decode_step d z batchSize lstmCells) (c, h, nextInput, []) [0..<len])
        (\<lambda>(c', h', nextInput', samples). stack2 samples))))"

text \<open>
  \<^verbatim>\<open>class MusicVAE\<close> (lines 199-319). \<open>interpolateZs\<close> is the \<^verbatim>\<open>dl.tidy\<close> block of
  \<^verbatim>\<open>interpolate\<close> (lines 274-307), a function of the encoded batch \<open>z\<close>, of
  \<^verbatim>\<open>sequences.shape[0]\<close> and of \<^verbatim>\<open>numSteps\<close>.
\<close>

definition interpolateZs :: "tensor2 \<Rightarrow> nat \<Rightarrow> nat \<Rightarrow> error + tensor2" where
  "interpolateZs z n numSteps =
     bindE (linspace 0 1 numSteps) (\<lambda>rangeArray.
     bindE (slice2D z (0, 0) (1, cols z)) (\<lambda>s0.
     bindE (slice2D z (1, 0) (1, cols z)) (\<lambda>s1.
     let z0 = concat s0; z1 = concat s1 in
     if n = 2 then
       bindE (sub1 z1 z0) (\<lambda>zDiff. add2 (outerProduct rangeArray zDiff) [z0])
     else if n = 4 then
       bindE (slice2D z (2, 0) (1, cols z)) (\<lambda>s2.
       bindE (slice2D z (3, 0) (1, cols z)) (\<lambda>s3.
       let z2 = concat s2; z3 = concat s3;
           revRangeArray = map (\<lambda>x. 1 - x) rangeArray;
           r = numSteps
       in
       bindE (reshape3D (concat (outerProduct revRangeArray revRangeArray)) r r 1) (\<lambda>w0.
       bindE (mul3 [[z0]] w0) (\<lambda>f0.
       bindE (reshape3D (concat (outerProduct rangeArray revRangeArray)) r r 1) (\<lambda>w1.
       bindE (mul3 [[z1]] w1) (\<lambda>t1.
       bindE (addStrict3 f0 t1) (\<lambda>f1.
       bindE (reshape3D (concat (outerProduct revRangeArray rangeArray)) r r 1) (\<lambda>w2.
       bindE (mul3 [[z2]] w2) (\<lambda>t2.
       bindE (addStrict3 f1 t2) (\<lambda>f2.
       bindE (reshape3D (concat (outerProduct rangeArray rangeArray)) r r 1) (\<lambda>w3.
       bindE (mul3 [[z3]] w3) (\<lambda>t3.
       bindE (addStrict3 f2 t3) (\<lambda>finalZs.
       reshape2D (concat (concat finalZs)) (r * r) (cols z))))))))))))))
     else Inl (Thrown ''Invalid number of note sequences. Requires length 2, or 4''))))"

text \<open>
  The checkpoint \<^verbatim>\<open>vars\<close> maps names to tensors of any rank, and \<^verbatim>\<open>name in vars\<close> looks at
  the name alone. \<^verbatim>\<open>vars[name] as dl.Tensor2D\<close> is an unchecked cast: the source goes on
  with whatever tensor the store holds under the name. The fields of \<open>LayerVars\<close> are typed
  here, so the model follows a cast where the tensor has the rank the cast names, and stops
  with \<open>Inl (IllTyped name)\<close> where it has another; what is proved of \<open>initialize\<close> is
  proved for the stores whose kernels have rank 2 and whose biases have rank 1
  (\<open>well_ranked\<close>). The two weights of the NADE model are reshaped by its constructor, which
  is followed at every rank. \<^verbatim>\<open>sample\<close> draws its latent vectors from the runtime's random
  source, which is an argument here.
\<close>

type_synonym Vars = "(string \<times> tensor) list"

definition has :: "Vars \<Rightarrow> string \<Rightarrow> bool" where
  "has vars name \<longleftrightarrow> name \<in> fst ` set vars"

definition asTensor1D :: "Vars \<Rightarrow> string \<Rightarrow> error + tensor1 option" where
  "asTensor1D vars name =
     (case map_of vars name of
        None \<Rightarrow> Inr None
      | Some t \<Rightarrow> if rank t = 1 then Inr (Some (entries t)) else Inl (IllTyped name))"

definition asTensor2D :: "Vars \<Rightarrow> string \<Rightarrow> error + tensor2 option" where
  "asTensor2D vars name =
     (case map_of vars name of
        None \<Rightarrow> Inr None
      | Some t \<Rightarrow>
          (case shape t of
             [m, n] \<Rightarrow> Inr (Some (chunk m n (entries t)))
           | _ \<Rightarrow> Inl (IllTyped name)))"

text \<open>\<^verbatim>\<open>new LayerVars(vars[kernelName] as dl.Tensor2D, vars[biasName] as dl.Tensor1D)\<close>\<close>

definition new_LayerVars :: "Vars \<Rightarrow> string \<Rightarrow> string \<Rightarrow> error + LayerVars" where
  "new_LayerVars vars kernelName biasName =
     bindE (asTensor2D vars kernelName) (\<lambda>k.
     bindE (asTensor1D vars biasName) (\<lambda>b.
     Inr \<lparr>kernel = k, bias = b\<rparr>))"

definition endsWith :: "string \<Rightarrow> string \<Rightarrow> bool" where
  "endsWith name suffix \<longleftrightarrow> drop (length name - length suffix) name = suffix"

definition well_ranked :: "Vars \<Rightarrow> bool" where
  "well_ranked vars \<longleftrightarrow>
     list_all (\<lambda>(name, t). (endsWith name ''kernel'' \<longrightarrow> rank t = 2) \<and>
                            (endsWith name ''bias'' \<longrightarrow> rank t = 1)) vars"

record MusicVAE =
  checkpointURL :: string
  encoder :: "Encoder option"
  decoder :: "Decoder option"
  rawVars :: "Vars option"

definition new_MusicVAE :: "string \<Rightarrow> MusicVAE" where
  "new_MusicVAE url = \<lparr>checkpointURL = url, encoder = None, decoder = None, rawVars = None\<rparr>"

definition interpolate :: "MusicVAE \<Rightarrow> tensor3 \<Rightarrow> nat \<Rightarrow> error + tensor3" where
  "interpolate m sequences numSteps =
     (if length sequences \<noteq> 2 \<and> length sequences \<noteq> 4
      then Inl (Thrown ''Invalid number of input sequences. Requires length 2, or 4'')
      else
        bindE (defined (encoder m)) (\<lambda>e.
        bindE (Encoder_encode e sequences) (\<lambda>z.
        bindE (interpolateZs z (length sequences) numSteps) (\<lambda>interpolatedZs.
        bindE (defined (decoder m)) (\<lambda>d.
        Decoder_decode d interpolatedZs (cols sequences))))))"

definition MusicVAE_sample :: "MusicVAE \<Rightarrow> (nat \<Rightarrow> nat \<Rightarrow> tensor2) \<Rightarrow> nat \<Rightarrow> nat \<Rightarrow> error + tensor3" where
  "MusicVAE_sample m randomNormal numSamples numSteps =
     bindE (defined (decoder m)) (\<lambda>d.
     Decoder_decode d (randomNormal numSamples (dec_zDims d)) numSteps)"

definition isInitialized :: "MusicVAE \<Rightarrow> bool" where
  "isInitialized m \<longleftrightarrow> encoder m \<noteq> None \<and> decoder m \<noteq> None"

text \<open>
  \<^verbatim>\<open>DECODER_CELL_FORMAT.replace('%d', l.toString())\<close>: the decimal digits of \<open>l\<close> replace the
  first occurrence of the pattern.
\<close>

function toString :: "nat \<Rightarrow> string" where
  "toString n =
     (if n < 10 then [''0123456789'' ! n]
      else toString (n div 10) @ [''0123456789'' ! (n mod 10)])"
  by pat_completeness auto
termination
  by (relation "measure id") auto

declare toString.simps [simp del]

fun replace :: "string \<Rightarrow> string \<Rightarrow> string \<Rightarrow> string" where
  "replace [] pat rep = (if pat = [] then rep else [])"
| "replace (c # cs) pat rep =
     (if take (length pat) (c # cs) = pat then rep @ drop (length pat) (c # cs)
      else c # replace cs pat rep)"

definition DECODER_CELL_FORMAT :: string where
  "DECODER_CELL_FORMAT = ''decoder/multi_rnn_cell/cell_%d/lstm_cell/''"

definition cellPrefix :: "nat \<Rightarrow> string" where
  "cellPrefix l = replace DECODER_CELL_FORMAT ''%d'' (toString l)"

lemma cellPrefix_eq:
  "cellPrefix l = ''decoder/multi_rnn_cell/cell_'' @ toString l @ ''/lstm_cell/''"
  by (simp add: cellPrefix_def DECODER_CELL_FORMAT_def)

text \<open>The names of the decoder's layers are pairwise distinct: the digits can be read back.\<close>

definition ofString :: "string \<Rightarrow> nat" where
  "ofString s = foldl (\<lambda>acc c. 10 * acc + (of_char c - 48)) 0 s"

lemma digit_value: "d < 10 \<Longrightarrow> of_char (''0123456789'' ! d) - 48 = d"
proof -
  assume "d < 10"
  then have "d \<in> {0, 1, 2, 3, 4, 5, 6, 7, 8, 9}" by auto
  then show ?thesis by auto
qed

lemma ofString_toString: "ofString (toString n) = n"
proof (induction n rule: toString.induct)
  case (1 n)
  show ?case
  proof (cases "n < 10")
    case True
    then show ?thesis by (subst toString.simps) (simp add: ofString_def digit_value)
  next
    case False
    then have "ofString (toString (n div 10)) = n div 10" using 1 by simp
    moreover have "toString n = toString (n div 10) @ [''0123456789'' ! (n mod 10)]"
      using False by (subst toString.simps) simp
    ultimately show ?thesis by (simp add: ofString_def digit_value)
  qed
qed

lemma cellPrefix_inj: "cellPrefix i = cellPrefix j \<Longrightarrow> i = j"
proof -
  assume "cellPrefix i = cellPrefix j"
  then have "toString i = toString j" by (simp add: cellPrefix_eq)
  then have "ofString (toString i) = ofString (toString j)" by (rule arg_cong)
  then show ?thesis by (simp only: ofString_toString)
qed

text \<open>
  \<^verbatim>\<open>
  while (true) {
    const cellPrefix = DECODER_CELL_FORMAT.replace('%d', l.toString());
    if (!(cellPrefix + 'kernel' in vars)) { break; }
    decLstmLayers.push(new LayerVars(vars[cellPrefix + 'kernel'], vars[cellPrefix + 'bias']));
    ++l;
  }
  \<close>
  The loop ends because the store is finite and the names differ.
\<close>

function decLstmLayers :: "Vars \<Rightarrow> nat \<Rightarrow> error + LayerVars list" where
  "decLstmLayers vars l =
     (let cellPrefix = cellPrefix l in
      if \<not> has vars (cellPrefix @ ''kernel'') then Inr []
      else bindE (new_LayerVars vars (cellPrefix @ ''kernel'') (cellPrefix @ ''bias'')) (\<lambda>lv.
           bindE (decLstmLayers vars (l + 1)) (\<lambda>layers. Inr (lv # layers))))"
  by pat_completeness auto
termination
proof (relation "measure (\<lambda>(vars, l). card {k \<in> fst ` set vars. \<exists>j\<ge>l. k = cellPrefix j @ ''kernel''})")
  show "wf (measure (\<lambda>(vars, l). card {k \<in> fst ` set vars. \<exists>j\<ge>l. k = cellPrefix j @ ''kernel''}))"
    by simp
next
  fix vars :: Vars and l :: nat and x
  assume x: "x = cellPrefix l" and h: "\<not> \<not> has vars (x @ ''kernel'')"
  let ?S = "\<lambda>l. {k \<in> fst ` set vars. \<exists>j\<ge>l. k = cellPrefix j @ ''kernel''}"
  have fin: "finite (?S l)" by simp
  have mem: "cellPrefix l @ ''kernel'' \<in> ?S l"
    using h x by (auto simp: has_def)
  have nmem: "cellPrefix l @ ''kernel'' \<notin> ?S (l + 1)"
    by (auto dest: cellPrefix_inj)
  have sub: "?S (l + 1) \<subseteq> ?S l"
  proof
    fix k assume "k \<in> ?S (l + 1)"
    then obtain j where "k \<in> fst ` set vars" "l + 1 \<le> j" "k = cellPrefix j @ ''kernel''"
      by blast
    then have "k \<in> fst ` set vars \<and> l \<le> j \<and> k = cellPrefix j @ ''kernel''"
      by simp
    then show "k \<in> ?S l" by blast
  qed
  have "?S (l + 1) \<subset> ?S l" using mem nmem sub by blast
  then have "card (?S (l + 1)) < card (?S l)" using fin by (rule psubset_card_mono [rotated])
  then show "((vars, l + 1), (vars, l)) \<in> measure (\<lambda>(vars, l). card {k \<in> fst ` set vars. \<exists>j\<ge>l. k = cellPrefix j @ ''kernel''})"
    by simp
qed

declare decLstmLayers.simps [simp del]

definition initialize :: "MusicVAE \<Rightarrow> Vars \<Rightarrow> error + MusicVAE" where
  "initialize m vars =
     bindE (new_LayerVars vars
              ''encoder/cell_0/bidirectional_rnn/fw/multi_rnn_cell/cell_0/lstm_cell/kernel''
              ''encoder/cell_0/bidirectional_rnn/fw/multi_rnn_cell/cell_0/lstm_cell/bias'')
       (\<lambda>encLstmFw.
     bindE (new_LayerVars vars
              ''encoder/cell_0/bidirectional_rnn/bw/multi_rnn_cell/cell_0/lstm_cell/kernel''
              ''encoder/cell_0/bidirectional_rnn/bw/multi_rnn_cell/cell_0/lstm_cell/bias'')
       (\<lambda>encLstmBw.
     bindE (new_LayerVars vars ''encoder/mu/kernel'' ''encoder/mu/bias'') (\<lambda>encMu.
     bindE (decLstmLayers vars 0) (\<lambda>decLstmLayers.
     bindE (new_LayerVars vars ''decoder/z_to_initial_state/kernel''
              ''decoder/z_to_initial_state/bias'') (\<lambda>decZtoInitState.
     bindE (new_LayerVars vars ''decoder/output_projection/kernel''
              ''decoder/output_projection/bias'') (\<lambda>decOutputProjection.
     bindE (if has vars ''decoder/nade/w_enc''
            then bindE (new_Nade (map_of vars ''decoder/nade/w_enc'')
                          (map_of vars ''decoder/nade/w_dec_t'')) (\<lambda>n. Inr (Some n))
            else Inr None) (\<lambda>nade.
     bindE (new_Encoder encLstmFw encLstmBw encMu) (\<lambda>e.
     bindE (new_Decoder decLstmLayers decZtoInitState decOutputProjection nade) (\<lambda>d.
     Inr (m\<lparr>encoder := Some e, decoder := Some d, rawVars := Some vars\<rparr>))))))))))"

subsection \<open>Error plumbing\<close>

lemma bindE_Inr_iff:
  "bindE x f = Inr y \<longleftrightarrow> (\<exists>v. x = Inr v \<and> f v = Inr y)"
  by (cases x) simp_all

lemma mapE_Inr: "(\<And>x. x \<in> set xs \<Longrightarrow> f x = Inr (g x)) \<Longrightarrow> mapE f xs = Inr (map g xs)"
  by (induction xs) simp_all

lemma foldE_snoc: "foldE f s (xs @ [x]) = bindE (foldE f s xs) (\<lambda>s'. f s' x)"
proof (induction xs arbitrary: s)
  case Nil
  show ?case by (cases "f s x") simp_all
next
  case (Cons y ys)
  show ?case by (cases "f s y") (simp_all add: Cons)
qed



subsection \<open>Which errors can arise\<close>

definition noThrow :: "error + 'a \<Rightarrow> bool" where
  "noThrow r \<longleftrightarrow> (case r of Inl (Thrown msg) \<Rightarrow> False | _ \<Rightarrow> True)"

lemma noThrow_simps [simp]:
  "noThrow (Inr v)" "noThrow (Inl TypeError)" "noThrow (Inl RuntimeError)"
  "noThrow (Inl (IllTyped name))" "\<not> noThrow (Inl (Thrown msg))"
  by (simp_all add: noThrow_def)

lemma noThrow_bindE: "noThrow x \<Longrightarrow> (\<And>v. noThrow (f v)) \<Longrightarrow> noThrow (bindE x f)"
  by (cases x) (simp_all add: noThrow_def)

lemma noThrow_mapE: "(\<And>x. noThrow (f x)) \<Longrightarrow> noThrow (mapE f xs)"
  by (induction xs) (simp_all add: noThrow_bindE)

lemma noThrow_foldE: "(\<And>s x. noThrow (f s x)) \<Longrightarrow> noThrow (foldE f s xs)"
  by (induction xs arbitrary: s) (simp_all add: noThrow_bindE)

lemma noThrow_defined: "noThrow (defined v)"
  by (cases v) (simp_all add: defined_def)

lemma noThrow_broadcast: "(\<And>x y. noThrow (f x y)) \<Longrightarrow> noThrow (broadcast f xs ys)"
  by (simp add: broadcast_def noThrow_mapE split: prod.splits)

lemma noThrow_add1: "noThrow (add1 u v)"
  by (simp add: add1_def noThrow_broadcast)

lemma noThrow_sub1: "noThrow (sub1 u v)"
  by (simp add: sub1_def noThrow_broadcast)

lemma noThrow_mul1: "noThrow (mul1 u v)"
  by (simp add: mul1_def noThrow_broadcast)

lemma noThrow_add2: "noThrow (add2 a b)"
  by (simp add: add2_def noThrow_broadcast noThrow_add1)

lemma noThrow_mul3: "noThrow (mul3 a b)"
  by (simp add: mul3_def noThrow_broadcast noThrow_mul1)

lemma noThrow_strict2: "noThrow (strict2 f a b)"
  by (simp add: strict2_def)

lemma noThrow_addStrict3: "noThrow (addStrict3 a b)"
  by (simp add: addStrict3_def)

lemma noThrow_matMul: "noThrow (matMul a b ta tb)"
  by (simp add: matMul_def Let_def)

lemma noThrow_slice2D: "noThrow (slice2D t s z)"
  by (simp add: slice2D_def)

lemma noThrow_slice3D: "noThrow (slice3D t s z)"
  by (simp add: slice3D_def split: prod.splits)

lemma noThrow_reshape2D: "noThrow (reshape2D f r c)"
  by (simp add: reshape2D_def)

lemma noThrow_reshape3D: "noThrow (reshape3D f r c d)"
  by (simp add: reshape3D_def)

lemma noThrow_stack1: "noThrow (stack1 ts)"
  by (simp add: stack1_def)

lemma noThrow_stack2: "noThrow (stack2 ts)"
  by (simp add: stack2_def)

lemma noThrow_concat2d: "noThrow (concat2d a b)"
  by (simp add: concat2d_def)

lemma noThrow_oneHot: "noThrow (oneHot l d)"
  by (simp add: oneHot_def)

lemma noThrow_linspace: "noThrow (linspace a b n)"
  by (simp add: linspace_def Let_def)

lemma noThrow_quarter: "noThrow (quarter n)"
  by (simp add: quarter_def)

lemmas noThrow_runtime =
  noThrow_bindE noThrow_mapE noThrow_foldE noThrow_defined noThrow_add1 noThrow_sub1
  noThrow_mul1 noThrow_add2 noThrow_mul3 noThrow_strict2 noThrow_addStrict3 noThrow_matMul
  noThrow_slice2D noThrow_slice3D noThrow_reshape2D noThrow_reshape3D noThrow_stack1
  noThrow_stack2 noThrow_concat2d noThrow_oneHot noThrow_linspace noThrow_quarter

lemma noThrow_basicLSTMCell: "noThrow (basicLSTMCell fb k b data c h)"
  unfolding basicLSTMCell_def Let_def addStrict_def mulStrict_def
  by (intro noThrow_runtime) (simp_all add: noThrow_runtime)

lemma noThrow_lstm: "noThrow (lstm lv data st)"
  by (simp add: lstm_def noThrow_basicLSTMCell)

lemma noThrow_multiRNNCell:
  "(\<And>cell data c h. cell \<in> set cells \<Longrightarrow> noThrow (cell data c h)) \<Longrightarrow>
   noThrow (multiRNNCell cells data c h)"
proof (induction cells data c h rule: multiRNNCell.induct)
  case (2 cell cells data ci c hi h)
  then show ?case by (auto intro!: noThrow_bindE split: prod.splits)
qed simp_all

lemma noThrow_dense: "noThrow (dense lv x)"
  unfolding dense_def by (intro noThrow_runtime)

lemma noThrow_Nade_sample: "noThrow (Nade_sample n e d)"
  unfolding Nade_sample_def Nade_sample_step_def Let_def
  by (intro noThrow_runtime) (auto intro!: noThrow_runtime split: prod.splits)

lemma noThrow_runLstm: "noThrow (runLstm inputs lv reverse)"
  unfolding runLstm_def runLstm_step_def Let_def
  by (intro noThrow_runtime noThrow_lstm)

lemma noThrow_Encoder_encode: "noThrow (Encoder_encode e s)"
  unfolding Encoder_encode_def
  by (intro noThrow_runtime noThrow_runLstm noThrow_dense)


definition cellOf :: "LayerVars \<Rightarrow> LSTMCell" where
  "cellOf lv = (\<lambda>data c h. lstm lv data (c, h))"

lemma decode_init_cells:
  "foldE (decode_init_step ini bs) (cells0, c0, h0, off0) lvs = Inr (cells, c, h, off)
   \<Longrightarrow> cells = cells0 @ map cellOf lvs"
proof (induction lvs arbitrary: cells0 c0 h0 off0)
  case Nil
  then show ?case by simp
next
  case (Cons lv lvs)
  from Cons.prems obtain st where
    st: "decode_init_step ini bs (cells0, c0, h0, off0) lv = Inr st"
    and rest: "foldE (decode_init_step ini bs) st lvs = Inr (cells, c, h, off)"
    by (auto simp: bindE_Inr_iff)
  from st obtain c1 h1 off1 where "st = (cells0 @ [cellOf lv], c1, h1, off1)"
    by (auto simp: decode_init_step_def bindE_Inr_iff Let_def cellOf_def)
  with rest Cons.IH [of "cells0 @ [cellOf lv]" c1 h1 off1] show ?case by simp
qed

lemma noThrow_decode_step:
  assumes "\<And>cell data c h. cell \<in> set cells \<Longrightarrow> noThrow (cell data c h)"
  shows "noThrow (decode_step d z bs cells st i)"
  unfolding decode_step_def Let_def
  by (auto intro!: noThrow_runtime noThrow_dense noThrow_multiRNNCell noThrow_Nade_sample assms
      split: prod.splits option.splits)

lemma noThrow_Decoder_decode: "noThrow (Decoder_decode d z len)"
proof -
  let ?ini = "\<lambda>pre. foldE (decode_init_step (map (map tanh) pre) (length z)) ([], [], [], 0)
                 (lstmCellVars d)"
  have step: "noThrow (bindE (foldE (decode_step d z (length z) cells)
                  (c, h, zeros (length z) (outputDims d), []) [0..<len])
                (\<lambda>(c', h', nextInput', samples). stack2 samples))"
    if "?ini pre = Inr (cells, c, h, off)" for pre cells c h off
  proof -
    have "cells = map cellOf (lstmCellVars d)"
      using decode_init_cells [OF that] by simp
    then have "\<And>cell data c h. cell \<in> set cells \<Longrightarrow> noThrow (cell data c h)"
      by (auto simp: cellOf_def noThrow_lstm)
    then show ?thesis
      by (intro noThrow_bindE noThrow_foldE noThrow_decode_step)
        (auto simp: noThrow_stack2 split: prod.splits)
  qed
  have ini: "noThrow (?ini pre)" for pre
    unfolding decode_init_step_def Let_def
    by (intro noThrow_foldE) (auto intro!: noThrow_runtime split: prod.splits)
  show ?thesis
    unfolding Decoder_decode_def Let_def
  proof (rule noThrow_bindE [OF noThrow_dense])
    fix pre
    show "noThrow (bindE (?ini pre)
            (\<lambda>(lstmCells, c, h, stateOffset).
               bindE (foldE (decode_step d z (length z) lstmCells)
                  (c, h, zeros (length z) (outputDims d), []) [0..<len])
                (\<lambda>(c', h', nextInput', samples). stack2 samples)))"
    proof (cases "?ini pre")
      case (Inl e)
      then show ?thesis using ini [of pre] by (simp add: noThrow_def)
    next
      case (Inr st)
      then show ?thesis using step [of pre] by (cases st) auto
    qed
  qed
qed

lemma noThrow_interpolateZs: "n = 2 \<or> n = 4 \<Longrightarrow> noThrow (interpolateZs z n k)"
  unfolding interpolateZs_def Let_def
  by (intro noThrow_runtime) (auto intro!: noThrow_runtime)

lemma noThrow_interpolate:
  "length seqs = 2 \<or> length seqs = 4 \<Longrightarrow> noThrow (interpolate m seqs k)"
  unfolding interpolate_def
  by (auto intro!: noThrow_runtime noThrow_Encoder_encode noThrow_interpolateZs
        noThrow_Decoder_decode)

text \<open>
  Claim C5. For every batch of sequences whose size is neither 2 nor 4, \<open>interpolate\<close>
  fails with the source's invalid-argument error, whatever the model and \<open>numSteps\<close> are:
  the check comes before the encoder is read, so even a model that was never initialised
  (whose encoder is \<^verbatim>\<open>undefined\<close>) reports the batch size and not a TypeError. For a batch
  of size 2 or 4 no thrown \<^verbatim>\<open>Error\<close> of the source is raised, by the check or later.
\<close>

theorem interpolate_batch_size:
  "(length sequences \<noteq> 2 \<and> length sequences \<noteq> 4 \<longrightarrow>
      interpolate m sequences numSteps
        = Inl (Thrown ''Invalid number of input sequences. Requires length 2, or 4'')) \<and>
   (length sequences = 2 \<or> length sequences = 4 \<longrightarrow>
      (\<forall>msg. interpolate m sequences numSteps \<noteq> Inl (Thrown msg)))"
proof (intro conjI impI allI)
  assume "length sequences \<noteq> 2 \<and> length sequences \<noteq> 4"
  then show "interpolate m sequences numSteps
        = Inl (Thrown ''Invalid number of input sequences. Requires length 2, or 4'')"
    by (simp add: interpolate_def)
next
  fix msg
  assume "length sequences = 2 \<or> length sequences = 4"
  then have "noThrow (interpolate m sequences numSteps)"
    by (rule noThrow_interpolate)
  then show "interpolate m sequences numSteps \<noteq> Inl (Thrown msg)"
    by (auto simp: noThrow_def)
qed

theorem interpolate_batch_size_witness:
  "interpolate (new_MusicVAE ''ckpt'') [[[0]]] 3
     = Inl (Thrown ''Invalid number of input sequences. Requires length 2, or 4'') \<and>
   interpolate (new_MusicVAE ''ckpt'') [[[0]], [[0]], [[0]]] 3
     = Inl (Thrown ''Invalid number of input sequences. Requires length 2, or 4'') \<and>
   interpolate (new_MusicVAE ''ckpt'') [[[0]], [[0]]] 3
     \<noteq> Inl (Thrown ''Invalid number of input sequences. Requires length 2, or 4'')"
  using interpolate_batch_size [of "[[[0]]]" "new_MusicVAE ''ckpt''" 3]
    interpolate_batch_size [of "[[[0]], [[0]], [[0]]]" "new_MusicVAE ''ckpt''" 3]
    interpolate_batch_size [of "[[[0]], [[0]]]" "new_MusicVAE ''ckpt''" 3]
  by simp

subsection \<open>Initialisation\<close>

lemma new_Encoder_Inr:
  "new_Encoder fw bw mu = Inr e \<longleftrightarrow>
   (\<exists>b. bias mu = Some b \<and>
        e = \<lparr>lstmFwVars = fw, lstmBwVars = bw, muVars = mu, enc_zDims = length b\<rparr>)"
  by (cases "bias mu") (auto simp: new_Encoder_def defined_def)

lemma new_Decoder_Inr:
  "new_Decoder cells zi op nd = Inr d \<longleftrightarrow>
   (\<exists>k od. kernel zi = Some k \<and>
      (case nd of Some n \<Rightarrow> od = numDims n | None \<Rightarrow> (\<exists>b. bias op = Some b \<and> od = length b)) \<and>
      d = \<lparr>lstmCellVars = cells, zToInitStateVars = zi, outputProjectVars = op,
           dec_zDims = length k, outputDims = od, nade = nd\<rparr>)"
  by (cases "kernel zi"; cases nd; cases "bias op")
    (auto simp: new_Decoder_def defined_def)

lemma has_map_of: "has vars name \<longleftrightarrow> map_of vars name \<noteq> None"
  by (simp add: has_def map_of_eq_None_iff)

lemma endsWith_append: "endsWith (prefix @ suffix) suffix"
  by (simp add: endsWith_def)

lemma well_rankedD:
  assumes "well_ranked vars" "map_of vars name = Some t"
  shows "endsWith name ''kernel'' \<Longrightarrow> rank t = 2" "endsWith name ''bias'' \<Longrightarrow> rank t = 1"
proof -
  have "(name, t) \<in> set vars" using assms(2) by (rule map_of_SomeD)
  then have "(endsWith name ''kernel'' \<longrightarrow> rank t = 2) \<and> (endsWith name ''bias'' \<longrightarrow> rank t = 1)"
    using assms(1) by (auto simp: well_ranked_def list_all_iff)
  then show "endsWith name ''kernel'' \<Longrightarrow> rank t = 2" "endsWith name ''bias'' \<Longrightarrow> rank t = 1"
    by simp_all
qed

text \<open>In a well-ranked store every cast of a kernel or a bias is followed.\<close>

lemma asTensor2D_kernel:
  assumes "well_ranked vars" "endsWith name ''kernel''"
  shows "\<exists>k. asTensor2D vars name = Inr k \<and> (k \<noteq> None \<longleftrightarrow> has vars name)"
proof (cases "map_of vars name")
  case None
  then show ?thesis by (simp add: asTensor2D_def has_map_of)
next
  case (Some t)
  then have "rank t = 2" using assms by (auto dest: well_rankedD)
  then obtain m n where "shape t = [m, n]"
    by (auto simp: rank_def length_Suc_conv numeral_2_eq_2)
  then show ?thesis using Some by (simp add: asTensor2D_def has_map_of)
qed

lemma asTensor1D_bias:
  assumes "well_ranked vars" "endsWith name ''bias''"
  shows "\<exists>b. asTensor1D vars name = Inr b \<and> (b \<noteq> None \<longleftrightarrow> has vars name)"
proof (cases "map_of vars name")
  case None
  then show ?thesis by (simp add: asTensor1D_def has_map_of)
next
  case (Some t)
  then have "rank t = 1" using assms by (auto dest: well_rankedD)
  then show ?thesis using Some by (simp add: asTensor1D_def has_map_of)
qed

lemma new_LayerVars_ok:
  assumes "well_ranked vars" "endsWith k ''kernel''" "endsWith b ''bias''"
  shows "\<exists>lv. new_LayerVars vars k b = Inr lv \<and>
           (kernel lv \<noteq> None \<longleftrightarrow> has vars k) \<and> (bias lv \<noteq> None \<longleftrightarrow> has vars b)"
proof -
  obtain kv where kv: "asTensor2D vars k = Inr kv" "kv \<noteq> None \<longleftrightarrow> has vars k"
    using asTensor2D_kernel [OF assms(1,2)] by blast
  obtain bv where bv: "asTensor1D vars b = Inr bv" "bv \<noteq> None \<longleftrightarrow> has vars b"
    using asTensor1D_bias [OF assms(1,3)] by blast
  show ?thesis using kv bv by (simp add: new_LayerVars_def)
qed

lemma decLstmLayers_ok: "well_ranked vars \<Longrightarrow> \<exists>layers. decLstmLayers vars l = Inr layers"
proof (induction vars l rule: decLstmLayers.induct)
  case (1 vars l)
  show ?case
  proof (cases "has vars (cellPrefix l @ ''kernel'')")
    case False
    then show ?thesis by (subst decLstmLayers.simps) simp
  next
    case True
    obtain lv where lv:
      "new_LayerVars vars (cellPrefix l @ ''kernel'') (cellPrefix l @ ''bias'') = Inr lv"
      using new_LayerVars_ok [OF "1.prems" endsWith_append endsWith_append] by blast
    obtain layers where "decLstmLayers vars (l + 1) = Inr layers"
      using "1.IH" [OF refl _ "1.prems"] True by auto
    then show ?thesis using True lv by (subst decLstmLayers.simps) simp
  qed
qed

lemma initialize_bound:
  assumes "well_ranked vars"
  shows "\<exists>fw bw mu layers zi op.
     (bias mu \<noteq> None \<longleftrightarrow> has vars ''encoder/mu/bias'') \<and>
     (kernel zi \<noteq> None \<longleftrightarrow> has vars ''decoder/z_to_initial_state/kernel'') \<and>
     (bias op \<noteq> None \<longleftrightarrow> has vars ''decoder/output_projection/bias'') \<and>
     initialize m vars =
       bindE (if has vars ''decoder/nade/w_enc''
              then bindE (new_Nade (map_of vars ''decoder/nade/w_enc'')
                            (map_of vars ''decoder/nade/w_dec_t'')) (\<lambda>n. Inr (Some n))
              else Inr None) (\<lambda>nade.
       bindE (new_Encoder fw bw mu) (\<lambda>e.
       bindE (new_Decoder layers zi op nade) (\<lambda>d.
       Inr (m\<lparr>encoder := Some e, decoder := Some d, rawVars := Some vars\<rparr>))))"
proof -
  have k: "endsWith ''encoder/cell_0/bidirectional_rnn/fw/multi_rnn_cell/cell_0/lstm_cell/kernel'' ''kernel''"
    "endsWith ''encoder/cell_0/bidirectional_rnn/bw/multi_rnn_cell/cell_0/lstm_cell/kernel'' ''kernel''"
    "endsWith ''encoder/mu/kernel'' ''kernel''"
    "endsWith ''decoder/z_to_initial_state/kernel'' ''kernel''"
    "endsWith ''decoder/output_projection/kernel'' ''kernel''"
    by (simp_all add: endsWith_def)
  have b: "endsWith ''encoder/cell_0/bidirectional_rnn/fw/multi_rnn_cell/cell_0/lstm_cell/bias'' ''bias''"
    "endsWith ''encoder/cell_0/bidirectional_rnn/bw/multi_rnn_cell/cell_0/lstm_cell/bias'' ''bias''"
    "endsWith ''encoder/mu/bias'' ''bias''"
    "endsWith ''decoder/z_to_initial_state/bias'' ''bias''"
    "endsWith ''decoder/output_projection/bias'' ''bias''"
    by (simp_all add: endsWith_def)
  obtain fw where fw: "new_LayerVars vars
      ''encoder/cell_0/bidirectional_rnn/fw/multi_rnn_cell/cell_0/lstm_cell/kernel''
      ''encoder/cell_0/bidirectional_rnn/fw/multi_rnn_cell/cell_0/lstm_cell/bias'' = Inr fw"
    using new_LayerVars_ok [OF assms k(1) b(1)] by blast
  obtain bw where bw: "new_LayerVars vars
      ''encoder/cell_0/bidirectional_rnn/bw/multi_rnn_cell/cell_0/lstm_cell/kernel''
      ''encoder/cell_0/bidirectional_rnn/bw/multi_rnn_cell/cell_0/lstm_cell/bias'' = Inr bw"
    using new_LayerVars_ok [OF assms k(2) b(2)] by blast
  obtain mu where mu: "new_LayerVars vars ''encoder/mu/kernel'' ''encoder/mu/bias'' = Inr mu"
    "bias mu \<noteq> None \<longleftrightarrow> has vars ''encoder/mu/bias''"
    using new_LayerVars_ok [OF assms k(3) b(3)] by blast
  obtain layers where layers: "decLstmLayers vars 0 = Inr layers"
    using decLstmLayers_ok [OF assms] by blast
  obtain zi where zi: "new_LayerVars vars ''decoder/z_to_initial_state/kernel''
      ''decoder/z_to_initial_state/bias'' = Inr zi"
    "kernel zi \<noteq> None \<longleftrightarrow> has vars ''decoder/z_to_initial_state/kernel''"
    using new_LayerVars_ok [OF assms k(4) b(4)] by blast
  obtain op where op: "new_LayerVars vars ''decoder/output_projection/kernel''
      ''decoder/output_projection/bias'' = Inr op"
    "bias op \<noteq> None \<longleftrightarrow> has vars ''decoder/output_projection/bias''"
    using new_LayerVars_ok [OF assms k(5) b(5)] by blast
  have "initialize m vars =
       bindE (if has vars ''decoder/nade/w_enc''
              then bindE (new_Nade (map_of vars ''decoder/nade/w_enc'')
                            (map_of vars ''decoder/nade/w_dec_t'')) (\<lambda>n. Inr (Some n))
              else Inr None) (\<lambda>nade.
       bindE (new_Encoder fw bw mu) (\<lambda>e.
       bindE (new_Decoder layers zi op nade) (\<lambda>d.
       Inr (m\<lparr>encoder := Some e, decoder := Some d, rawVars := Some vars\<rparr>))))"
    unfolding initialize_def fw bw mu(1) layers zi(1) op(1) by (simp only: bindE.simps)
  then show ?thesis using mu(2) zi(2) op(2) by blast
qed

text \<open>The constructor of the NADE model needs both of its weights.\<close>

lemma new_Nade_needs:
  "new_Nade encW decW = Inr n \<Longrightarrow> encW \<noteq> None \<and> decW \<noteq> None"
  by (cases encW; cases decW) (auto simp: new_Nade_def defined_def Let_def bindE_Inr_iff)

text \<open>
  Claim C8, as the code has it, for a well-ranked store. The output head is chosen when
  the weights are bound, by the test \<^verbatim>\<open>'decoder/nade/w_enc' in vars\<close>: without that name the
  decoder gets no NADE model (the argmax head) and no error comes from the missing NADE
  names; with it the decoder gets the NADE model built from \<open>decoder/nade/w_enc\<close> and
  \<open>decoder/nade/w_dec_t\<close>, and initialisation fails when that model cannot be built, as it
  cannot without \<open>decoder/nade/w_dec_t\<close>. \<open>decode\<close> reads the decoder's \<open>nade\<close> field and
  never the store. Of the other names only three are needed for \<open>initialize\<close> to succeed,
  those whose shape a constructor reads: \<open>encoder/mu/bias\<close>,
  \<open>decoder/z_to_initial_state/kernel\<close> and, for the argmax head,
  \<open>decoder/output_projection/bias\<close>. Any other name may be absent: the field is bound to
  \<^verbatim>\<open>undefined\<close> and \<open>initialize\<close> returns the model.
\<close>

theorem initialize_head_and_required_names:
  assumes "well_ranked vars"
  shows "(\<not> has vars ''decoder/nade/w_enc'' \<longrightarrow>
      (initialize m vars = Inr m' \<longrightarrow> (\<exists>d. decoder m' = Some d \<and> nade d = None)) \<and>
      ((\<exists>r. initialize m vars = Inr r) \<longleftrightarrow>
         has vars ''encoder/mu/bias'' \<and>
         has vars ''decoder/z_to_initial_state/kernel'' \<and>
         has vars ''decoder/output_projection/bias'')) \<and>
   (has vars ''decoder/nade/w_enc'' \<longrightarrow>
      (initialize m vars = Inr m' \<longrightarrow>
         has vars ''decoder/nade/w_dec_t'' \<and>
         (\<exists>d n. decoder m' = Some d \<and> nade d = Some n \<and>
            new_Nade (map_of vars ''decoder/nade/w_enc'')
              (map_of vars ''decoder/nade/w_dec_t'') = Inr n)) \<and>
      ((\<exists>r. initialize m vars = Inr r) \<longleftrightarrow>
         (\<exists>n. new_Nade (map_of vars ''decoder/nade/w_enc'')
                (map_of vars ''decoder/nade/w_dec_t'') = Inr n) \<and>
         has vars ''encoder/mu/bias'' \<and>
         has vars ''decoder/z_to_initial_state/kernel''))"
proof -
  let ?N = "new_Nade (map_of vars ''decoder/nade/w_enc'') (map_of vars ''decoder/nade/w_dec_t'')"
  obtain fw bw mu layers zi op where b:
    "bias mu \<noteq> None \<longleftrightarrow> has vars ''encoder/mu/bias''"
    "kernel zi \<noteq> None \<longleftrightarrow> has vars ''decoder/z_to_initial_state/kernel''"
    "bias op \<noteq> None \<longleftrightarrow> has vars ''decoder/output_projection/bias''"
    and i: "initialize m vars =
       bindE (if has vars ''decoder/nade/w_enc'' then bindE ?N (\<lambda>n. Inr (Some n)) else Inr None)
         (\<lambda>nade.
       bindE (new_Encoder fw bw mu) (\<lambda>e.
       bindE (new_Decoder layers zi op nade) (\<lambda>d.
       Inr (m\<lparr>encoder := Some e, decoder := Some d, rawVars := Some vars\<rparr>))))"
    using initialize_bound [OF assms, of m] by blast
  have ok: "initialize m vars = Inr r \<longleftrightarrow>
      (\<exists>nd e d. (if has vars ''decoder/nade/w_enc'' then \<exists>n. ?N = Inr n \<and> nd = Some n
                  else nd = None) \<and>
         new_Encoder fw bw mu = Inr e \<and> new_Decoder layers zi op nd = Inr d \<and>
         r = m\<lparr>encoder := Some e, decoder := Some d, rawVars := Some vars\<rparr>)" for r
    unfolding i by (auto simp: bindE_Inr_iff)
  have enc: "(\<exists>e. new_Encoder fw bw mu = Inr e) \<longleftrightarrow> has vars ''encoder/mu/bias''"
    using b(1) by (auto simp: new_Encoder_Inr)
  have dec0: "(\<exists>d. new_Decoder layers zi op None = Inr d) \<longleftrightarrow>
      has vars ''decoder/z_to_initial_state/kernel'' \<and> has vars ''decoder/output_projection/bias''"
    using b(2,3) by (auto simp: new_Decoder_Inr)
  have dec1: "(\<exists>d. new_Decoder layers zi op (Some n) = Inr d) \<longleftrightarrow>
      has vars ''decoder/z_to_initial_state/kernel''" for n
    using b(2) by (auto simp: new_Decoder_Inr)
  have nd: "nade d = nd" if "new_Decoder layers zi op nd = Inr d" for d nd
    using that by (auto simp: new_Decoder_Inr)
  show ?thesis
  proof (cases "has vars ''decoder/nade/w_enc''")
    case False
    have "\<exists>d. decoder m' = Some d \<and> nade d = None" if "initialize m vars = Inr m'"
      using that False nd by (auto simp: ok)
    moreover have "(\<exists>r. initialize m vars = Inr r) \<longleftrightarrow>
         has vars ''encoder/mu/bias'' \<and>
         has vars ''decoder/z_to_initial_state/kernel'' \<and>
         has vars ''decoder/output_projection/bias''"
      using False enc dec0 by (simp add: ok) blast
    ultimately show ?thesis using False by blast
  next
    case True
    have "has vars ''decoder/nade/w_dec_t'' \<and>
         (\<exists>d n. decoder m' = Some d \<and> nade d = Some n \<and> ?N = Inr n)"
      if "initialize m vars = Inr m'"
    proof -
      from that True obtain n e d where n: "?N = Inr n" "new_Decoder layers zi op (Some n) = Inr d"
        "m' = m\<lparr>encoder := Some e, decoder := Some d, rawVars := Some vars\<rparr>"
        by (auto simp: ok)
      have "has vars ''decoder/nade/w_dec_t''"
        using new_Nade_needs [OF n(1)] by (simp add: has_map_of)
      then show ?thesis using n nd [OF n(2)] by simp
    qed
    moreover have "(\<exists>r. initialize m vars = Inr r) \<longleftrightarrow>
         (\<exists>n. ?N = Inr n) \<and> has vars ''encoder/mu/bias'' \<and>
         has vars ''decoder/z_to_initial_state/kernel''"
      using True enc dec1 by (simp add: ok) blast
    ultimately show ?thesis using True by blast
  qed
qed

text \<open>
  The claim as it is written (the absence of a required weight name is an initialisation
  error) fails: a store that has every name but \<open>encoder/mu/kernel\<close> initialises.
\<close>

definition ckpt_without_mu_kernel :: Vars where
  "ckpt_without_mu_kernel =
     [(''encoder/cell_0/bidirectional_rnn/fw/multi_rnn_cell/cell_0/lstm_cell/kernel'',
         Tensor [3, 4] [0, 0, 0, 0, 0, 0, 0, 0, 0, 0, 0, 0]),
      (''encoder/cell_0/bidirectional_rnn/fw/multi_rnn_cell/cell_0/lstm_cell/bias'',
         Tensor [4] [0, 0, 0, 0]),
      (''encoder/cell_0/bidirectional_rnn/bw/multi_rnn_cell/cell_0/lstm_cell/kernel'',
         Tensor [3, 4] [0, 0, 0, 0, 0, 0, 0, 0, 0, 0, 0, 0]),
      (''encoder/cell_0/bidirectional_rnn/bw/multi_rnn_cell/cell_0/lstm_cell/bias'',
         Tensor [4] [0, 0, 0, 0]),
      (''encoder/mu/bias'', Tensor [1] [0]),
      (''decoder/multi_rnn_cell/cell_0/lstm_cell/kernel'',
         Tensor [4, 4] [0, 0, 0, 0, 0, 0, 0, 0, 0, 0, 0, 0, 0, 0, 0, 0]),
      (''decoder/multi_rnn_cell/cell_0/lstm_cell/bias'', Tensor [4] [0, 0, 0, 0]),
      (''decoder/z_to_initial_state/kernel'', Tensor [1, 2] [0, 0]),
      (''decoder/z_to_initial_state/bias'', Tensor [2] [0, 0]),
      (''decoder/output_projection/kernel'', Tensor [1, 2] [0, 0]),
      (''decoder/output_projection/bias'', Tensor [2] [0, 0])]"

theorem initialize_counterexample:
  "\<not> has ckpt_without_mu_kernel ''encoder/mu/kernel'' \<and>
   well_ranked ckpt_without_mu_kernel \<and>
   initialize (new_MusicVAE ''ckpt'') ckpt_without_mu_kernel =
     Inr \<lparr>checkpointURL = ''ckpt'',
          encoder = Some
            \<lparr>lstmFwVars = \<lparr>kernel = Some [[0, 0, 0, 0], [0, 0, 0, 0], [0, 0, 0, 0]],
                           bias = Some [0, 0, 0, 0]\<rparr>,
             lstmBwVars = \<lparr>kernel = Some [[0, 0, 0, 0], [0, 0, 0, 0], [0, 0, 0, 0]],
                           bias = Some [0, 0, 0, 0]\<rparr>,
             muVars = \<lparr>kernel = None, bias = Some [0]\<rparr>,
             enc_zDims = 1\<rparr>,
          decoder = Some
            \<lparr>lstmCellVars =
               [\<lparr>kernel = Some [[0, 0, 0, 0], [0, 0, 0, 0], [0, 0, 0, 0], [0, 0, 0, 0]],
                 bias = Some [0, 0, 0, 0]\<rparr>],
             zToInitStateVars = \<lparr>kernel = Some [[0, 0]], bias = Some [0, 0]\<rparr>,
             outputProjectVars = \<lparr>kernel = Some [[0, 0]], bias = Some [0, 0]\<rparr>,
             dec_zDims = 1, outputDims = 2, nade = None\<rparr>,
          rawVars = Some ckpt_without_mu_kernel\<rparr>"
  by code_simp

text \<open>
  Two stores for the NADE head, of two dimensions and one hidden unit: one holds
  \<open>decoder/nade/w_enc\<close> at rank 3, the other at rank 2, where the name still selects the NADE
  head and its constructor fails.
\<close>

definition ckpt_nade :: Vars where
  "ckpt_nade =
     [(''encoder/mu/bias'', Tensor [1] [0]),
      (''decoder/z_to_initial_state/kernel'', Tensor [1, 2] [0, 0]),
      (''decoder/nade/w_enc'', Tensor [2, 1, 1] [2, 3]),
      (''decoder/nade/w_dec_t'', Tensor [2, 1, 1] [0, 0])]"

definition ckpt_nade_rank2 :: Vars where
  "ckpt_nade_rank2 =
     [(''encoder/mu/bias'', Tensor [1] [0]),
      (''decoder/z_to_initial_state/kernel'', Tensor [1, 2] [0, 0]),
      (''decoder/output_projection/bias'', Tensor [2] [0, 0]),
      (''decoder/nade/w_enc'', Tensor [2, 1] [2, 3]),
      (''decoder/nade/w_dec_t'', Tensor [2, 1] [0, 0])]"

lemma example_stores:
  "well_ranked ckpt_without_mu_kernel" "\<not> has ckpt_without_mu_kernel ''decoder/nade/w_enc''"
  "has ckpt_without_mu_kernel ''encoder/mu/bias''"
  "has ckpt_without_mu_kernel ''decoder/z_to_initial_state/kernel''"
  "has ckpt_without_mu_kernel ''decoder/output_projection/bias''"
  "well_ranked ckpt_nade" "has ckpt_nade ''decoder/nade/w_enc''"
  "has ckpt_nade ''encoder/mu/bias''" "has ckpt_nade ''decoder/z_to_initial_state/kernel''"
  "new_Nade (map_of ckpt_nade ''decoder/nade/w_enc'') (map_of ckpt_nade ''decoder/nade/w_dec_t'')
     = Inr \<lparr>encWeights = [[2], [3]], decWeightsT = [[0], [0]], numDims = 2, numHidden = 1\<rparr>"
  "well_ranked ckpt_nade_rank2" "has ckpt_nade_rank2 ''decoder/nade/w_enc''"
  "new_Nade (map_of ckpt_nade_rank2 ''decoder/nade/w_enc'')
     (map_of ckpt_nade_rank2 ''decoder/nade/w_dec_t'') = Inl RuntimeError"
  by code_simp+

theorem initialize_head_and_required_names_witness:
  "(\<exists>r. initialize (new_MusicVAE ''ckpt'') ckpt_without_mu_kernel = Inr r) \<and>
   (\<exists>r. initialize (new_MusicVAE ''ckpt'') ckpt_nade = Inr r) \<and>
   \<not> (\<exists>r. initialize (new_MusicVAE ''ckpt'') ckpt_nade_rank2 = Inr r)"
  using initialize_head_and_required_names
      [of ckpt_without_mu_kernel "new_MusicVAE ''ckpt''"]
    initialize_head_and_required_names [of ckpt_nade "new_MusicVAE ''ckpt''"]
    initialize_head_and_required_names [of ckpt_nade_rank2 "new_MusicVAE ''ckpt''"]
  by (simp add: example_stores)

subsection \<open>Shapes\<close>

lemma is2_length: "is2 m n t \<Longrightarrow> length t = m"
  by (simp add: is2_def)

lemma is2_row: "is2 m n t \<Longrightarrow> r \<in> set t \<Longrightarrow> length r = n"
  by (simp add: is2_def list_all_iff)

lemma is2_nth: "is2 m n t \<Longrightarrow> i < m \<Longrightarrow> length (t ! i) = n"
  by (simp add: is2_def list_all_length)

lemma is2_cols: "is2 m n t \<Longrightarrow> 0 < m \<Longrightarrow> cols t = n"
  by (cases t) (simp_all add: is2_def cols_def)

lemma is2_I: "length t = m \<Longrightarrow> (\<And>r. r \<in> set t \<Longrightarrow> length r = n) \<Longrightarrow> is2 m n t"
  by (simp add: is2_def list_all_iff)

lemma is2_map: "(\<And>x. x \<in> set xs \<Longrightarrow> length (f x) = n) \<Longrightarrow> is2 (length xs) n (map f xs)"
  by (auto simp: is2_def list_all_iff)

subsection \<open>Broadcasting\<close>

lemma broadcast_same:
  "length xs = length ys \<Longrightarrow> (\<And>x y. (x, y) \<in> set (zip xs ys) \<Longrightarrow> f x y = Inr (g x y))
   \<Longrightarrow> broadcast f xs ys = Inr (map2 g xs ys)"
  unfolding broadcast_def by (simp add: mapE_Inr [where g = "\<lambda>(x, y). g x y"] split_def)

lemma broadcast_right_single:
  "(\<And>x. x \<in> set xs \<Longrightarrow> f x y = Inr (g x)) \<Longrightarrow> broadcast f xs [y] = Inr (map g xs)"
proof (cases "length xs = 1")
  case True
  assume f: "\<And>x. x \<in> set xs \<Longrightarrow> f x y = Inr (g x)"
  from True obtain x where xs: "xs = [x]" by (cases xs) auto
  then show ?thesis using f by (simp add: broadcast_def)
next
  case False
  assume f: "\<And>x. x \<in> set xs \<Longrightarrow> f x y = Inr (g x)"
  then show ?thesis using False by (simp add: broadcast_def mapE_Inr)
qed

lemma broadcast_left_single:
  "(\<And>y. y \<in> set ys \<Longrightarrow> f x y = Inr (g y)) \<Longrightarrow> broadcast f [x] ys = Inr (map g ys)"
proof (cases "length ys = 1")
  case True
  assume f: "\<And>y. y \<in> set ys \<Longrightarrow> f x y = Inr (g y)"
  from True obtain y where ys: "ys = [y]" by (cases ys) auto
  then show ?thesis using f by (simp add: broadcast_def)
next
  case False
  assume f: "\<And>y. y \<in> set ys \<Longrightarrow> f x y = Inr (g y)"
  then have "mapE (f x) ys = Inr (map g ys)" by (intro mapE_Inr)
  then show ?thesis using False by (auto simp: broadcast_def)
qed

lemma add1_same: "length u = length v \<Longrightarrow> add1 u v = Inr (map2 (+) u v)"
  by (simp add: add1_def broadcast_same)


lemma mul1_scalar: "mul1 u [w] = Inr (map (\<lambda>x. x * w) u)"
  by (simp add: mul1_def broadcast_right_single)

lemma add2_bias:
  "(\<And>r. r \<in> set t \<Longrightarrow> length r = length b) \<Longrightarrow> add2 t [b] = Inr (map (\<lambda>r. map2 (+) r b) t)"
  by (simp add: add2_def broadcast_right_single add1_same)

lemma add2_same:
  "is2 m n a \<Longrightarrow> is2 m n b \<Longrightarrow> add2 a b = Inr (map2 (map2 (+)) a b)"
  unfolding add2_def
proof (rule broadcast_same)
  assume a: "is2 m n a" and b: "is2 m n b"
  show "length a = length b" using a b by (simp add: is2_def)
  fix x y assume "(x, y) \<in> set (zip a b)"
  then have "x \<in> set a" "y \<in> set b" by (auto dest: set_zip_leftD set_zip_rightD)
  then have "length x = length y" using a b by (simp add: is2_row)
  then show "add1 x y = Inr (map2 (+) x y)" by (rule add1_same)
qed

subsection \<open>Slices and reshapes\<close>

lemma slice2D_row:
  assumes "is2 m n t" "i < m"
  shows "slice2D t (i, 0) (1, cols t) = Inr [t ! i]"
proof -
  have c: "cols t = n" using assms by (intro is2_cols) auto
  have l: "length t = m" "length (t ! i) = n" using assms by (simp_all add: is2_length is2_nth)
  have "drop i t = t ! i # drop (Suc i) t"
    using assms(2) l(1) by (simp add: Cons_nth_drop_Suc)
  then have "take 1 (drop i t) = [t ! i]" by simp
  then show ?thesis using assms(2) l c by (simp add: slice2D_def)
qed

lemma chunk_Suc: "chunk (Suc m) w (r @ xs) = r # chunk m w xs" if "length r = w"
proof -
  have "[0..<Suc m] = 0 # map Suc [0..<m]"
    by (simp add: upt_conv_Cons map_Suc_upt del: upt_Suc)
  then show ?thesis using that by (simp add: chunk_def comp_def del: upt_Suc)
qed

lemma chunk_concat: "is2 m n t \<Longrightarrow> chunk m n (concat t) = t"
proof (induction t arbitrary: m)
  case Nil
  then show ?case by (simp add: is2_def chunk_def)
next
  case (Cons r t)
  then obtain m' where m: "m = Suc m'" "is2 m' n t" "length r = n"
    by (cases m) (auto simp: is2_def)
  then show ?case using Cons.IH [of m'] by (simp add: chunk_Suc)
qed

lemma chunk_singletons: "length xs = n \<Longrightarrow> chunk n 1 xs = map (\<lambda>x. [x]) xs"
proof -
  assume "length xs = n"
  then have "is2 n 1 (map (\<lambda>x. [x]) xs)" by (auto simp: is2_def list_all_iff)
  then have "chunk n 1 (concat (map (\<lambda>x. [x]) xs)) = map (\<lambda>x. [x]) xs" by (rule chunk_concat)
  moreover have "concat (map (\<lambda>x. [x]) xs) = xs" by (induction xs) simp_all
  ultimately show ?thesis by simp
qed

lemma length_concat_is2: "is2 m n t \<Longrightarrow> length (concat t) = m * n"
  by (induction t arbitrary: m) (auto simp: is2_def)

lemma reshape2D_concat: "is2 m n t \<Longrightarrow> reshape2D (concat t) m n = Inr t"
  by (simp add: reshape2D_def length_concat_is2 chunk_concat)

lemma nth_concat_is2:
  "is2 m n t \<Longrightarrow> i < m \<Longrightarrow> j < n \<Longrightarrow> concat t ! (i * n + j) = t ! i ! j"
proof (induction t arbitrary: m i)
  case Nil
  then show ?case by (simp add: is2_def)
next
  case (Cons r t)
  then obtain m' where m: "m = Suc m'" "is2 m' n t" "length r = n"
    by (cases m) (auto simp: is2_def)
  show ?case
  proof (cases i)
    case 0
    then show ?thesis using m Cons.prems by (simp add: nth_append)
  next
    case (Suc i')
    then have "i' < m'" using Cons.prems m by simp
    then have "concat t ! (i' * n + j) = t ! i' ! j" using Cons.IH m Cons.prems by simp
    then show ?thesis using Suc m by (simp add: nth_append)
  qed
qed

subsection \<open>The ramp\<close>

lemma linspace_loop:
  "foldl (\<lambda>vs i. vs @ [last vs + step]) [start] [1..<Suc n]
   = map (\<lambda>i. start + real i * step) [0..<Suc n]"
proof (induction n)
  case 0
  show ?case by simp
next
  case (Suc n)
  have "[1..<Suc (Suc n)] = [1..<Suc n] @ [Suc n]" by simp
  then show ?case using Suc by (simp add: algebra_simps del: upt_Suc) (simp add: algebra_simps)
qed

text \<open>The ramp in the spec's words: \<open>t \<in> {0, 1/(numSteps-1), \<dots>, 1}\<close>, of length \<open>numSteps\<close>.\<close>

definition ramp :: "nat \<Rightarrow> real list" where
  "ramp n = map (\<lambda>i. real i / real (n - 1)) [0..<n]"

lemma linspace_ramp: "0 < n \<Longrightarrow> linspace 0 1 n = Inr (ramp n)"
proof -
  assume "0 < n"
  then obtain k where n: "n = Suc k" by (cases n) auto
  show ?thesis
    unfolding linspace_def Let_def ramp_def n linspace_loop by simp
qed

subsection \<open>Interpolation between two latent points\<close>

lemma ramp_props:
  "length (ramp n) = n" "0 < n \<Longrightarrow> ramp n \<noteq> []" "0 < n \<Longrightarrow> hd (ramp n) = 0"
  "2 \<le> n \<Longrightarrow> last (ramp n) = 1"
proof -
  show "length (ramp n) = n" by (simp add: ramp_def)
  show "0 < n \<Longrightarrow> ramp n \<noteq> []" by (simp add: ramp_def)
  show "0 < n \<Longrightarrow> hd (ramp n) = 0" by (simp add: ramp_def hd_map upt_conv_Cons)
  show "2 \<le> n \<Longrightarrow> last (ramp n) = 1"
  proof -
    assume n: "2 \<le> n"
    then obtain k where k: "n = Suc k" "0 < k" by (cases n) auto
    then show ?thesis by (simp add: ramp_def)
  qed
qed





subsection \<open>Bilinear interpolation between four latent points\<close>

lemma grid_reshape:
  assumes "length u = r" "length v = r"
  shows "reshape3D (concat (outerProduct u v)) r r 1 = Inr (map (\<lambda>x. map (\<lambda>y. [x * y]) v) u)"
proof -
  have o: "is2 r r (outerProduct u v)"
    using assms by (auto simp: is2_def list_all_iff outerProduct_def)
  have "chunk r r (concat (outerProduct u v)) = outerProduct u v"
    using o by (rule chunk_concat)
  moreover have "map (chunk r 1) (outerProduct u v) = map (\<lambda>x. map (\<lambda>y. [x * y]) v) u"
    using assms by (simp add: outerProduct_def chunk_singletons comp_def del: One_nat_def)
  ultimately show ?thesis
    using o by (simp add: reshape3D_def length_concat_is2)
qed

lemma mul3_grid:
  "mul3 [[z]] (map (\<lambda>x. map (\<lambda>y. [w x y]) v) u)
   = Inr (map (\<lambda>x. map (\<lambda>y. map (\<lambda>e. e * w x y) z) v) u)"
proof -
  have cell: "broadcast mul1 [z] (map (\<lambda>y. [w x y]) v)
              = Inr (map (\<lambda>c. map (\<lambda>e. e * hd c) z) (map (\<lambda>y. [w x y]) v))" for x
    by (rule broadcast_left_single) (auto simp: mul1_scalar)
  have "mul3 [[z]] (map (\<lambda>x. map (\<lambda>y. [w x y]) v) u)
        = Inr (map (\<lambda>p. map (\<lambda>c. map (\<lambda>e. e * hd c) z) p) (map (\<lambda>x. map (\<lambda>y. [w x y]) v) u))"
    unfolding mul3_def by (rule broadcast_left_single) (auto simp: cell)
  then show ?thesis by (simp add: comp_def)
qed

lemma map2_same_index: "map2 f (map g xs) (map h xs) = map (\<lambda>x. f (g x) (h x)) xs"
  by (induction xs) simp_all

lemma addStrict3_grid:
  assumes "\<And>x y. length (A x y) = Z" "\<And>x y. length (B x y) = Z"
  shows "addStrict3 (map (\<lambda>x. map (A x) v) u) (map (\<lambda>x. map (B x) v) u)
         = Inr (map (\<lambda>x. map (\<lambda>y. map2 (+) (A x y) (B x y)) v) u)"
proof -
  have "cols (map (\<lambda>x. map (A x) v) u) = cols (map (\<lambda>x. map (B x) v) u)"
    by (cases u) (simp_all add: cols_def)
  moreover have "cols (concat (map (\<lambda>x. map (A x) v) u)) = cols (concat (map (\<lambda>x. map (B x) v) u))"
  proof (cases v)
    case Nil
    then show ?thesis by simp
  next
    case (Cons y ys)
    then show ?thesis using assms by (cases u) (simp_all add: cols_def)
  qed
  ultimately show ?thesis
    by (simp add: addStrict3_def map2_same_index)
qed

lemma is2_grid:
  assumes "\<And>x y. length (F x y) = Z"
  shows "is2 (length u * length v) Z (concat (map (\<lambda>x. map (F x) v) u))"
  using assms by (induction u) (auto simp: is2_def list_all_iff)

text \<open>The bilinear blend in the spec's words, at row fraction \<open>r\<close> and column fraction \<open>c\<close>.\<close>

definition blend :: "tensor2 \<Rightarrow> real \<Rightarrow> real \<Rightarrow> tensor1" where
  "blend z r c =
     map (\<lambda>k. z ! 0 ! k * (1 - r) * (1 - c) + z ! 1 ! k * r * (1 - c)
             + z ! 2 ! k * (1 - r) * c + z ! 3 ! k * r * c) [0..<cols z]"

lemma interpolateZs_four:
  assumes z: "is2 4 Z z" and n: "0 < numSteps"
  shows "interpolateZs z 4 numSteps
         = Inr (concat (map (\<lambda>r. map (\<lambda>c. blend z r c) (ramp numSteps)) (ramp numSteps)))"
proof -
  let ?t = "ramp numSteps"
  have len: "length (z ! 0) = Z" "length (z ! 1) = Z" "length (z ! 2) = Z" "length (z ! 3) = Z"
    using z by (simp_all add: is2_nth)
  have c: "cols z = Z" using z by (intro is2_cols) auto
  have s: "slice2D z (0, 0) (1, cols z) = Inr [z ! 0]" "slice2D z (1, 0) (1, cols z) = Inr [z ! 1]"
    "slice2D z (2, 0) (1, cols z) = Inr [z ! 2]" "slice2D z (3, 0) (1, cols z) = Inr [z ! 3]"
    using slice2D_row [OF z, of 0] slice2D_row [OF z, of 1] slice2D_row [OF z, of 2]
      slice2D_row [OF z, of 3] by simp_all
  have lt: "length ?t = numSteps" "length (map (\<lambda>x. 1 - x) ?t) = numSteps"
    by (simp_all add: ramp_props)
  note g = grid_reshape [OF lt(2) lt(2)] grid_reshape [OF lt(1) lt(2)]
    grid_reshape [OF lt(2) lt(1)] grid_reshape [OF lt(1) lt(1)]
  let ?F = "\<lambda>x y. map2 (+) (map2 (+) (map2 (+)
               (map (\<lambda>e. e * ((1 - x) * (1 - y))) (z ! 0))
               (map (\<lambda>e. e * (x * (1 - y))) (z ! 1)))
               (map (\<lambda>e. e * ((1 - x) * y)) (z ! 2)))
               (map (\<lambda>e. e * (x * y)) (z ! 3))"
  have F: "?F x y = blend z x y" for x y
    using len by (auto simp: blend_def c list_eq_iff_nth_eq algebra_simps)
  have lF: "length (?F x y) = Z" for x y using len by simp
  have fin: "reshape2D (concat (concat (map (\<lambda>x. map (?F x) ?t) ?t))) (numSteps * numSteps) Z
             = Inr (concat (map (\<lambda>x. map (?F x) ?t) ?t))"
    using is2_grid [of ?F Z ?t ?t, OF lF] by (intro reshape2D_concat) (simp add: ramp_props)
  have a1: "addStrict3 (map (\<lambda>x. map (\<lambda>y. map (\<lambda>e. e * ((1 - x) * (1 - y))) (z ! 0)) ?t) ?t)
                       (map (\<lambda>x. map (\<lambda>y. map (\<lambda>e. e * (x * (1 - y))) (z ! 1)) ?t) ?t)
     = Inr (map (\<lambda>x. map (\<lambda>y. map2 (+) (map (\<lambda>e. e * ((1 - x) * (1 - y))) (z ! 0))
                                        (map (\<lambda>e. e * (x * (1 - y))) (z ! 1))) ?t) ?t)"
    by (rule addStrict3_grid [where Z = Z]) (simp_all add: len del: One_nat_def)
  have a2: "addStrict3 (map (\<lambda>x. map (\<lambda>y. map2 (+) (map (\<lambda>e. e * ((1 - x) * (1 - y))) (z ! 0))
                                        (map (\<lambda>e. e * (x * (1 - y))) (z ! 1))) ?t) ?t)
                       (map (\<lambda>x. map (\<lambda>y. map (\<lambda>e. e * ((1 - x) * y)) (z ! 2)) ?t) ?t)
     = Inr (map (\<lambda>x. map (\<lambda>y. map2 (+) (map2 (+) (map (\<lambda>e. e * ((1 - x) * (1 - y))) (z ! 0))
                                        (map (\<lambda>e. e * (x * (1 - y))) (z ! 1)))
                                        (map (\<lambda>e. e * ((1 - x) * y)) (z ! 2))) ?t) ?t)"
    by (rule addStrict3_grid [where Z = Z]) (simp_all add: len del: One_nat_def)
  have a3: "addStrict3 (map (\<lambda>x. map (\<lambda>y. map2 (+) (map2 (+) (map (\<lambda>e. e * ((1 - x) * (1 - y))) (z ! 0))
                                        (map (\<lambda>e. e * (x * (1 - y))) (z ! 1)))
                                        (map (\<lambda>e. e * ((1 - x) * y)) (z ! 2))) ?t) ?t)
                       (map (\<lambda>x. map (\<lambda>y. map (\<lambda>e. e * (x * y)) (z ! 3)) ?t) ?t)
     = Inr (map (\<lambda>x. map (?F x) ?t) ?t)"
    by (rule addStrict3_grid [where Z = Z]) (simp_all add: len del: One_nat_def)
  show ?thesis
    unfolding interpolateZs_def
    by (simp add: linspace_ramp n s [unfolded c] g Let_def comp_def mul3_grid a1 a2 a3 c
        fin [unfolded F] F del: One_nat_def)
qed


text \<open>
  Claim C4. For four reference sequences (an encoded batch \<open>z\<close> of shape \<open>[4, Z]\<close>) the
  latent point at row fraction \<open>r\<close> and column fraction \<open>c\<close> of the ramp is the bilinear blend
  \<open>z0*(1-r)*(1-c) + z1*r*(1-c) + z2*(1-r)*c + z3*r*c\<close>; the \<open>numSteps * numSteps\<close> points are
  flattened row-major, \<open>r\<close> the outer and \<open>c\<close> the inner index; for \<open>numSteps = 2\<close> the four
  points are the corners \<open>z0\<close>, \<open>z2\<close>, \<open>z1\<close>, \<open>z3\<close>, in this order. Arithmetic is exact here.
\<close>

theorem interpolate_four_bilinear:
  assumes "is2 4 Z z" and "0 < numSteps"
  shows "\<exists>zs. interpolateZs z 4 numSteps = Inr zs \<and> is2 (numSteps * numSteps) Z zs \<and>
           zs = concat (map (\<lambda>r. map (\<lambda>c. blend z r c) (ramp numSteps)) (ramp numSteps)) \<and>
           (\<forall>i < numSteps. \<forall>j < numSteps. \<forall>k < Z.
              zs ! (i * numSteps + j) ! k
              = z ! 0 ! k * (1 - ramp numSteps ! i) * (1 - ramp numSteps ! j)
              + z ! 1 ! k * ramp numSteps ! i * (1 - ramp numSteps ! j)
              + z ! 2 ! k * (1 - ramp numSteps ! i) * ramp numSteps ! j
              + z ! 3 ! k * ramp numSteps ! i * ramp numSteps ! j) \<and>
           (numSteps = 2 \<longrightarrow> zs = [z ! 0, z ! 2, z ! 1, z ! 3])"
proof -
  let ?t = "ramp numSteps"
  let ?zs = "concat (map (\<lambda>r. map (\<lambda>c. blend z r c) ?t) ?t)"
  have c: "cols z = Z" using assms(1) by (intro is2_cols) auto
  have len: "length (z ! 0) = Z" "length (z ! 1) = Z" "length (z ! 2) = Z" "length (z ! 3) = Z"
    using assms(1) by (simp_all add: is2_nth)
  have lb: "length (blend z r c) = Z" for r c by (simp add: blend_def c)
  have grid: "is2 numSteps numSteps (map (\<lambda>r. map (\<lambda>c. blend z r c) ?t) ?t)"
    by (auto simp: is2_def list_all_iff ramp_props)
  have 1: "interpolateZs z 4 numSteps = Inr ?zs"
    using assms by (rule interpolateZs_four)
  have 2: "is2 (numSteps * numSteps) Z ?zs"
    using is2_grid [of "blend z" Z ?t ?t, OF lb] by (simp add: ramp_props)
  have 3: "?zs ! (i * numSteps + j) ! k
              = z ! 0 ! k * (1 - ?t ! i) * (1 - ?t ! j) + z ! 1 ! k * ?t ! i * (1 - ?t ! j)
              + z ! 2 ! k * (1 - ?t ! i) * ?t ! j + z ! 3 ! k * ?t ! i * ?t ! j"
    if "i < numSteps" "j < numSteps" "k < Z" for i j k
  proof -
    have "?zs ! (i * numSteps + j) = blend z (?t ! i) (?t ! j)"
      using nth_concat_is2 [OF grid that(1,2)] that by (simp add: ramp_props)
    then show ?thesis using that(3) by (simp add: blend_def c)
  qed
  have 4: "?zs = [z ! 0, z ! 2, z ! 1, z ! 3]" if "numSteps = 2"
  proof -
    have r: "ramp 2 = [0, 1]" by (simp add: ramp_def upt_rec)
    have "blend z 0 0 = z ! 0" "blend z 0 1 = z ! 2" "blend z 1 0 = z ! 1" "blend z 1 1 = z ! 3"
      using len by (auto simp: blend_def c list_eq_iff_nth_eq)
    then show ?thesis by (simp add: that r)
  qed
  show ?thesis using 1 2 3 4 by blast
qed

theorem interpolate_four_bilinear_witness:
  "\<exists>zs. interpolateZs [[1, 0], [0, 1], [2, 2], [4, 8]] 4 2 = Inr zs \<and> is2 (2 * 2) 2 zs \<and>
         zs = [[1, 0], [2, 2], [0, 1], [4, 8]]"
  using interpolate_four_bilinear [of 2 "[[1, 0], [0, 1], [2, 2], [4, 8]]" 2]
  by (simp add: is2_def)

subsection \<open>The encoder\<close>











subsection \<open>The autoregressive estimator\<close>

text \<open>
  Sampling in the spec's words (section 4.4), for one batch element with accumulator \<open>a\<close> and
  decoder bias \<open>decBiasRow\<close>: at dimension \<open>i\<close>, \<open>h = sigmoid a\<close>, the conditional logit is
  \<open>decBiasRow[i]\<close> plus the dot product of \<open>h\<close> with row \<open>i\<close> of the transposed decoder weights,
  the sample is 1 if the sigmoid of the logit is at least 0.5 and 0 otherwise, and unless
  \<open>i\<close> is the last dimension the sample times row \<open>i\<close> of the encoder weights is added to \<open>a\<close>.
\<close>

definition sample_dim :: "Nade \<Rightarrow> tensor1 \<Rightarrow> tensor1 \<Rightarrow> nat \<Rightarrow> real" where
  "sample_dim n a decBiasRow i =
     (let h = map sigmoid a;
          condLogit = decBiasRow ! i + dot h (decWeightsT n ! i);
          prob = sigmoid condLogit
      in if 1 / 2 \<le> prob then 1 else 0)"

definition row_step :: "Nade \<Rightarrow> tensor1 \<Rightarrow> tensor1 \<times> tensor1 \<Rightarrow> nat \<Rightarrow> tensor1 \<times> tensor1" where
  "row_step n decBiasRow st i =
     (case st of (a, samples) \<Rightarrow>
        let s = sample_dim n a decBiasRow i;
            a' = (if i < numDims n - 1 then map2 (\<lambda>x w. x + s * w) a (encWeights n ! i) else a)
        in (a', samples @ [s]))"

definition sample_row :: "Nade \<Rightarrow> tensor1 \<Rightarrow> tensor1 \<Rightarrow> tensor1" where
  "sample_row n encBiasRow decBiasRow =
     snd (foldl (row_step n decBiasRow) (encBiasRow, []) [0..<numDims n])"

lemma slice2D_row_width:
  assumes "is2 m n t" "i < m"
  shows "slice2D t (i, 0) (1, n) = Inr [t ! i]"
proof -
  have "cols t = n" using assms by (intro is2_cols) auto
  then show ?thesis using slice2D_row [OF assms] by simp
qed

lemma slice2D_column:
  assumes "is2 m n t" "i < n" "0 < m"
  shows "slice2D t (0, i) (m, 1) = Inr (map (\<lambda>r. [r ! i]) t)"
proof -
  have c: "cols t = n" using assms by (intro is2_cols) auto
  have l: "length t = m" using assms by (simp add: is2_length)
  have "take 1 (drop i r) = [r ! i]" if "r \<in> set t" for r
  proof -
    have "length r = n" using assms(1) that by (rule is2_row)
    then have "drop i r = r ! i # drop (Suc i) r"
      using assms(2) by (simp add: Cons_nth_drop_Suc)
    then show ?thesis by simp
  qed
  then show ?thesis using assms(2) c l by (simp add: slice2D_def del: One_nat_def)
qed

lemma matMul_row_transposed:
  assumes "is2 m k a" "length w = k" "0 < m"
  shows "matMul a [w] False True = Inr (map (\<lambda>r. [dot r w]) a)"
proof -
  have "cols a = k" using assms by (intro is2_cols) auto
  then show ?thesis using assms(2) by (simp add: matMul_def cols_def)
qed

text \<open>One iteration on the whole batch is one iteration on every batch element.\<close>

lemma Nade_sample_step_rows:
  assumes eW: "is2 nd H (encWeights n)" and dW: "is2 nd H (decWeightsT n)"
    and nd: "numDims n = nd" and nh: "numHidden n = H"
    and dB: "is2 B nd decBias" and B: "0 < B" and i: "i < nd"
    and a: "length a = B" "\<And>b. b < B \<Longrightarrow> length (a ! b) = H"
  shows "Nade_sample_step n decBias B (a, samples) i
         = Inr (map (\<lambda>b. fst (row_step n (decBias ! b) (a ! b, []) i)) [0..<B],
                samples @ [map (\<lambda>b. sample_dim n (a ! b) (decBias ! b) i) [0..<B]])"
proof -
  let ?w = "decWeightsT n ! i" and ?e = "encWeights n ! i"
  let ?s = "map (\<lambda>b. sample_dim n (a ! b) (decBias ! b) i) [0..<B]"
  have le: "length ?e = H" using eW i by (rule is2_nth)
  have lw: "length ?w = H" using dW i by (rule is2_nth)
  have lB: "length decBias = B" using dB by (rule is2_length)
  have a2: "is2 B H a" using a by (auto simp: is2_def list_all_length)
  have h2: "is2 B H (map (map sigmoid) a)" using a by (auto simp: is2_def list_all_length)
  have s1: "slice2D (encWeights n) (i, 0) (1, H) = Inr [?e]"
    using eW i by (rule slice2D_row_width)
  have s2: "slice2D (decWeightsT n) (i, 0) (1, H) = Inr [?w]"
    using dW i by (rule slice2D_row_width)
  have s3: "slice2D decBias (0, i) (B, 1) = Inr (map (\<lambda>r. [r ! i]) decBias)"
    using dB i B by (rule slice2D_column)
  have mm: "matMul (map (map sigmoid) a) [?w] False True
            = Inr (map (\<lambda>r. [dot r ?w]) (map (map sigmoid) a))"
    using h2 lw B by (rule matMul_row_transposed)
  have ad: "add2 (map (\<lambda>r. [r ! i]) decBias) (map (\<lambda>r. [dot r ?w]) (map (map sigmoid) a))
            = Inr (map2 (map2 (+)) (map (\<lambda>r. [r ! i]) decBias)
                     (map (\<lambda>r. [dot r ?w]) (map (map sigmoid) a)))"
    by (rule add2_same [where m = B and n = 1]) (auto simp: is2_def list_all_iff lB a)
  have logits: "map2 (map2 (+)) (map (\<lambda>r. [r ! i]) decBias)
                     (map (\<lambda>r. [dot r ?w]) (map (map sigmoid) a))
                = map (\<lambda>b. [decBias ! b ! i + dot (map sigmoid (a ! b)) ?w]) [0..<B]"
    using lB a(1) by (simp add: list_eq_iff_nth_eq)
  have smp: "concat (toFloat (greaterEqual
               (map (map sigmoid)
                  (map (\<lambda>b. [decBias ! b ! i + dot (map sigmoid (a ! b)) ?w]) [0..<B])) (1 / 2)))
             = ?s"
    by (simp add: toFloat_def greaterEqual_def sample_dim_def Let_def comp_def
        concat_map_singleton of_bool_def cong: map_cong)
  have op: "add2 a (outerProduct ?s ?e) = Inr (map2 (map2 (+)) a (outerProduct ?s ?e))"
    by (rule add2_same [OF a2]) (auto simp: is2_def list_all_iff outerProduct_def le)
  have upd: "map2 (map2 (+)) a (outerProduct ?s ?e)
             = map (\<lambda>b. map2 (\<lambda>x w. x + sample_dim n (a ! b) (decBias ! b) i * w) (a ! b) ?e)
                 [0..<B]"
    using a le by (simp add: list_eq_iff_nth_eq outerProduct_def)
  have keep: "a = map (\<lambda>b. a ! b) [0..<B]"
    using a(1) map_nth [of a] by simp
  have lhs: "Nade_sample_step n decBias B (a, samples) i
             = bindE (if i < nd - 1 then add2 a (outerProduct ?s ?e) else Inr a)
                 (\<lambda>a'. Inr (a', samples @ [?s]))"
    by (simp only: Nade_sample_step_def prod.case Let_def nh nd s1 s2 s3 mm ad logits smp
        bindE.simps concat.simps append_Nil2)
  have rhs: "fst (row_step n (decBias ! b) (a ! b, []) i)
             = (if i < nd - 1
                then map2 (\<lambda>x w. x + sample_dim n (a ! b) (decBias ! b) i * w) (a ! b) ?e
                else a ! b)" for b
    by (simp add: row_step_def Let_def nd)
  show ?thesis
  proof (cases "i < nd - 1")
    case True
    then show ?thesis
      unfolding lhs rhs by (simp only: if_True op upd bindE.simps)
  next
    case False
    then show ?thesis
      unfolding lhs rhs using keep by (simp only: if_False bindE.simps)
  qed
qed

definition accumulator :: "Nade \<Rightarrow> tensor1 \<Rightarrow> tensor1 \<Rightarrow> nat \<Rightarrow> tensor1" where
  "accumulator n encBiasRow decBiasRow i =
     fst (foldl (row_step n decBiasRow) (encBiasRow, []) [0..<i])"

lemma accumulator_0: "accumulator n a db 0 = a"
  by (simp add: accumulator_def)

lemma accumulator_Suc:
  "accumulator n a db (Suc i) =
     (if i < numDims n - 1
      then map2 (\<lambda>x w. x + sample_dim n (accumulator n a db i) db i * w)
             (accumulator n a db i) (encWeights n ! i)
      else accumulator n a db i)"
  by (simp add: accumulator_def row_step_def Let_def split_def)

lemma snd_row_step: "snd (row_step n db st i) = snd st @ [sample_dim n (fst st) db i]"
  by (simp add: row_step_def Let_def split_def)

lemma row_samples:
  "snd (foldl (row_step n db) (a, []) [0..<k])
   = map (\<lambda>i. sample_dim n (accumulator n a db i) db i) [0..<k]"
  by (induction k) (simp_all add: accumulator_def snd_row_step)

lemma sample_row_eq:
  "sample_row n a db = map (\<lambda>i. sample_dim n (accumulator n a db i) db i) [0..<numDims n]"
  by (simp add: sample_row_def row_samples)

lemma length_accumulator:
  assumes "is2 nd H (encWeights n)" "numDims n = nd" "length a = H" "i \<le> nd"
  shows "length (accumulator n a db i) = H"
  using assms(4)
proof (induction i)
  case 0
  then show ?case using assms(3) by (simp add: accumulator_0)
next
  case (Suc i)
  then have "length (encWeights n ! i) = H" using assms(1) by (intro is2_nth) auto
  then show ?case using Suc by (simp add: accumulator_Suc)
qed

lemma fst_row_step:
  "fst (row_step n db (accumulator n a db i, []) i) = accumulator n a db (Suc i)"
  by (simp add: accumulator_Suc row_step_def Let_def)

lemma Nade_sample_loop:
  assumes eW: "is2 nd H (encWeights n)" and dW: "is2 nd H (decWeightsT n)"
    and nd: "numDims n = nd" and nh: "numHidden n = H"
    and eB: "is2 B H encBias" and dB: "is2 B nd decBias" and B: "0 < B" and k: "k \<le> nd"
  shows "foldE (Nade_sample_step n decBias B) (encBias, []) [0..<k]
         = Inr (map (\<lambda>b. accumulator n (encBias ! b) (decBias ! b) k) [0..<B],
                map (\<lambda>i. map (\<lambda>b. sample_dim n (accumulator n (encBias ! b) (decBias ! b) i)
                                   (decBias ! b) i) [0..<B]) [0..<k])"
  using k
proof (induction k)
  case 0
  have "encBias = map (\<lambda>b. encBias ! b) [0..<B]"
    using eB map_nth [of encBias] by (simp add: is2_length)
  then show ?case by (simp add: accumulator_0)
next
  case (Suc k)
  let ?a = "map (\<lambda>b. accumulator n (encBias ! b) (decBias ! b) k) [0..<B]"
  have la: "length ?a = B" by simp
  have ra: "length (?a ! b) = H" if "b < B" for b
  proof -
    have "length (encBias ! b) = H" using eB that by (rule is2_nth)
    then have "length (accumulator n (encBias ! b) (decBias ! b) k) = H"
      using Suc.prems by (intro length_accumulator [OF eW nd]) simp_all
    then show ?thesis using that by simp
  qed
  have k: "k < nd" using Suc.prems by simp
  have step: "Nade_sample_step n decBias B (?a, S) k
         = Inr (map (\<lambda>b. fst (row_step n (decBias ! b) (?a ! b, []) k)) [0..<B],
                S @ [map (\<lambda>b. sample_dim n (?a ! b) (decBias ! b) k) [0..<B]])" for S
    using eW dW nd nh dB B k la ra by (rule Nade_sample_step_rows)
  have acc: "map (\<lambda>b. fst (row_step n (decBias ! b) (?a ! b, []) k)) [0..<B]
             = map (\<lambda>b. accumulator n (encBias ! b) (decBias ! b) (Suc k)) [0..<B]"
    by (simp add: fst_row_step cong: map_cong)
  have smp: "map (\<lambda>b. sample_dim n (?a ! b) (decBias ! b) k) [0..<B]
             = map (\<lambda>b. sample_dim n (accumulator n (encBias ! b) (decBias ! b) k)
                                   (decBias ! b) k) [0..<B]"
    by (simp cong: map_cong)
  have "foldE (Nade_sample_step n decBias B) (encBias, []) [0..<Suc k]
        = bindE (foldE (Nade_sample_step n decBias B) (encBias, []) [0..<k])
            (\<lambda>s'. Nade_sample_step n decBias B s' k)"
    by (simp add: foldE_snoc)
  also have "\<dots> = Nade_sample_step n decBias B
        (?a, map (\<lambda>i. map (\<lambda>b. sample_dim n (accumulator n (encBias ! b) (decBias ! b) i)
                                   (decBias ! b) i) [0..<B]) [0..<k]) k"
    using Suc by simp
  also have "\<dots> = Inr (map (\<lambda>b. accumulator n (encBias ! b) (decBias ! b) (Suc k)) [0..<B],
                map (\<lambda>i. map (\<lambda>b. sample_dim n (accumulator n (encBias ! b) (decBias ! b) i)
                                   (decBias ! b) i) [0..<B]) [0..<Suc k])"
    unfolding step acc smp by simp
  finally show ?case .
qed

lemma stack_few: "length ts < 2 \<Longrightarrow> stack1 ts = Inl RuntimeError"
  "length us < 2 \<Longrightarrow> stack2 us = Inl RuntimeError"
  by (simp_all add: stack1_def stack2_def)

lemma stack1_grid:
  assumes "2 \<le> k"
  shows "stack1 (map (\<lambda>i. map (\<lambda>b. f b i) [0..<B]) [0..<k])
         = Inr (map (\<lambda>b. map (\<lambda>i. f b i) [0..<k]) [0..<B])"
proof -
  let ?ts = "map (\<lambda>i. map (\<lambda>b. f b i) [0..<B]) [0..<k]"
  have k: "[0..<k] = 0 # [1..<k]" using assms by (simp add: upt_conv_Cons)
  have h: "length (hd ?ts) = B" by (subst k) simp
  have all: "list_all (\<lambda>s. length s = B) ?ts" by (simp add: list_all_iff)
  have "map (\<lambda>b. map (\<lambda>s. s ! b) ?ts) [0..<B] = map (\<lambda>b. map (\<lambda>i. f b i) [0..<k]) [0..<B]"
    by (simp cong: map_cong)
  moreover have "stack1 ?ts = Inr (map (\<lambda>b. map (\<lambda>s. s ! b) ?ts) [0..<B])"
    unfolding stack1_def h using assms all by simp
  ultimately show ?thesis by simp
qed

lemma Nade_sample_rows:
  assumes eW: "is2 nd H (encWeights n)" and dW: "is2 nd H (decWeightsT n)"
    and nd: "numDims n = nd" and nh: "numHidden n = H"
    and eB: "is2 B H encBias" and dB: "is2 B nd decBias" and B: "0 < B" and pos: "2 \<le> nd"
  shows "Nade_sample n encBias decBias = Inr (map2 (sample_row n) encBias decBias)"
proof -
  have l: "length encBias = B" "length decBias = B"
    using eB dB by (simp_all add: is2_length)
  have "map2 (sample_row n) encBias decBias
        = map (\<lambda>b. sample_row n (encBias ! b) (decBias ! b)) [0..<B]"
    using l by (auto simp: list_eq_iff_nth_eq)
  moreover have "Nade_sample n encBias decBias
        = Inr (map (\<lambda>b. sample_row n (encBias ! b) (decBias ! b)) [0..<B])"
    unfolding Nade_sample_def Let_def l nd
      Nade_sample_loop [OF eW dW nd nh eB dB B order_refl]
    by (simp add: stack1_grid [OF pos] sample_row_eq nd)
  ultimately show ?thesis by simp
qed

text \<open>With fewer than two dimensions the loop still runs, and the stack is refused.\<close>

lemma Nade_sample_few:
  assumes eW: "is2 nd H (encWeights n)" and dW: "is2 nd H (decWeightsT n)"
    and nd: "numDims n = nd" and nh: "numHidden n = H"
    and eB: "is2 B H encBias" and dB: "is2 B nd decBias" and B: "0 < B" and few: "nd < 2"
  shows "Nade_sample n encBias decBias = Inl RuntimeError"
proof -
  have l: "length encBias = B" using eB by (simp add: is2_length)
  show ?thesis
    unfolding Nade_sample_def Let_def l nd
      Nade_sample_loop [OF eW dW nd nh eB dB B order_refl]
    using few by (simp add: stack_few)
qed

lemma sample_row_binary:
  "length (sample_row n a db) = numDims n" "x \<in> set (sample_row n a db) \<Longrightarrow> x = 0 \<or> x = 1"
  by (auto simp: sample_row_eq sample_dim_def Let_def)

text \<open>
  Claim C1, as the code has it. For biases \<open>encBias [B, H]\<close> and \<open>decBias [B, numDims]\<close>
  (with a non-empty batch and weights of shape \<open>[numDims, H]\<close>) and at least two dimensions,
  \<open>Nade.sample\<close> returns \<open>[B, numDims]\<close> samples such that, for every batch element \<open>b\<close>
  and dimension \<open>i\<close> in order: with \<open>h = sigmoid a\<close>, where the accumulator \<open>a\<close> starts as
  \<open>encBias[b]\<close>, the conditional logit is \<open>decBias[b][i]\<close> plus the dot product of \<open>h\<close> with
  row \<open>i\<close> of \<open>decWeightsT\<close>; the sample is 1 exactly when the sigmoid of the logit is at
  least 0.5, and 0 otherwise; the accumulator grows by the sample times row \<open>i\<close> of
  \<open>encWeights\<close> if and only if \<open>i\<close> is not the last dimension. With fewer than two
  dimensions the samples cannot be stacked (\<^verbatim>\<open>dl.stack\<close> needs two tensors) and \<open>sample\<close>
  fails.
\<close>

theorem Nade_sample_autoregressive:
  assumes "is2 (numDims n) (numHidden n) (encWeights n)"
    and "is2 (numDims n) (numHidden n) (decWeightsT n)"
    and "is2 B (numHidden n) encBias" and "is2 B (numDims n) decBias"
    and "0 < B"
  shows "(numDims n < 2 \<longrightarrow> Nade_sample n encBias decBias = Inl RuntimeError) \<and>
     (2 \<le> numDims n \<longrightarrow>
      (\<exists>samples. Nade_sample n encBias decBias = Inr samples \<and> is2 B (numDims n) samples \<and>
       (\<forall>b < B. \<forall>i < numDims n.
          samples ! b ! i =
            (if 1 / 2 \<le> sigmoid (decBias ! b ! i +
                   dot (map sigmoid (accumulator n (encBias ! b) (decBias ! b) i))
                       (decWeightsT n ! i))
             then 1 else 0) \<and>
          accumulator n (encBias ! b) (decBias ! b) 0 = encBias ! b \<and>
          accumulator n (encBias ! b) (decBias ! b) (Suc i) =
            (if i < numDims n - 1
             then map2 (\<lambda>x w. x + samples ! b ! i * w)
                    (accumulator n (encBias ! b) (decBias ! b) i) (encWeights n ! i)
             else accumulator n (encBias ! b) (decBias ! b) i))))"
proof (intro conjI impI)
  assume "numDims n < 2"
  with assms(1,2) refl refl assms(3-5) show "Nade_sample n encBias decBias = Inl RuntimeError"
    by (rule Nade_sample_few)
next
  assume two: "2 \<le> numDims n"
  let ?s = "map2 (sample_row n) encBias decBias"
  have l: "length encBias = B" "length decBias = B"
    using assms(3,4) by (simp_all add: is2_length)
  have 1: "Nade_sample n encBias decBias = Inr ?s"
    using assms(1,2) refl refl assms(3-5) two by (rule Nade_sample_rows)
  have 2: "is2 B (numDims n) ?s"
    using l by (auto simp: is2_def list_all_iff sample_row_binary dest!: set_zip_leftD)
  have nth: "?s ! b ! i = sample_dim n (accumulator n (encBias ! b) (decBias ! b) i) (decBias ! b) i"
    if "b < B" "i < numDims n" for b i
    using that l by (simp add: sample_row_eq)
  show "\<exists>samples. Nade_sample n encBias decBias = Inr samples \<and> is2 B (numDims n) samples \<and>
       (\<forall>b < B. \<forall>i < numDims n.
          samples ! b ! i =
            (if 1 / 2 \<le> sigmoid (decBias ! b ! i +
                   dot (map sigmoid (accumulator n (encBias ! b) (decBias ! b) i))
                       (decWeightsT n ! i))
             then 1 else 0) \<and>
          accumulator n (encBias ! b) (decBias ! b) 0 = encBias ! b \<and>
          accumulator n (encBias ! b) (decBias ! b) (Suc i) =
            (if i < numDims n - 1
             then map2 (\<lambda>x w. x + samples ! b ! i * w)
                    (accumulator n (encBias ! b) (decBias ! b) i) (encWeights n ! i)
             else accumulator n (encBias ! b) (decBias ! b) i))"
    using 1 2 by (auto simp: nth accumulator_0 accumulator_Suc sample_dim_def Let_def)
qed

subsection \<open>Shapes through the decoder\<close>

lemma is2_map_map: "is2 m n t \<Longrightarrow> is2 m n (map (map f) t)"
  by (simp add: is2_def list_all_iff)

lemma length_transpose2: "length (transpose2 t) = cols t"
  by (simp add: transpose2_def)

lemma is2_cols_weights: "is2 k n K \<Longrightarrow> k = 0 \<longrightarrow> n = 0 \<Longrightarrow> cols K = n"
  by (cases K) (auto simp: is2_def cols_def)

lemma matMul_shape:
  assumes "is2 m k a" "is2 k n b" "0 < m" "k = 0 \<longrightarrow> n = 0"
  shows "\<exists>y. matMul a b False False = Inr y \<and> is2 m n y"
proof -
  have "cols a = k" using assms(1,3) by (rule is2_cols)
  moreover have "length b = k" using assms(2) by (rule is2_length)
  moreover have "cols b = n" using assms(2,4) by (rule is2_cols_weights)
  ultimately show ?thesis
    using assms(1) by (simp add: matMul_def is2_def list_all_iff length_transpose2)
qed

lemma add2_bias_shape:
  assumes "is2 m n t" "length b = n"
  shows "\<exists>y. add2 t [b] = Inr y \<and> is2 m n y"
proof -
  have "add2 t [b] = Inr (map (\<lambda>r. map2 (+) r b) t)"
    using assms by (intro add2_bias) (simp add: is2_row)
  moreover have "is2 m n (map (\<lambda>r. map2 (+) r b) t)"
    using assms by (auto simp: is2_def list_all_iff)
  ultimately show ?thesis by blast
qed

lemma dense_shape:
  assumes "is2 m k x" "kernel lv = Some K" "is2 k n K" "bias lv = Some b" "length b = n"
    "0 < m" "k = 0 \<longrightarrow> n = 0"
  shows "\<exists>y. dense lv x = Inr y \<and> is2 m n y"
proof -
  obtain M where M: "matMul x K False False = Inr M" "is2 m n M"
    using matMul_shape [OF assms(1,3,6,7)] by blast
  obtain y where "add2 M [b] = Inr y" "is2 m n y"
    using add2_bias_shape [OF M(2) assms(5)] by blast
  then show ?thesis using M assms(2,4) by (simp add: dense_def defined_def)
qed

lemma is2_map2:
  assumes "is2 m p a" "is2 m q b"
    and "\<And>x y. length x = p \<Longrightarrow> length y = q \<Longrightarrow> length (f x y) = r"
  shows "is2 m r (map2 f a b)"
proof (rule is2_I)
  show "length (map2 f a b) = m" using assms(1,2) by (simp add: is2_def)
next
  fix e assume "e \<in> set (map2 f a b)"
  then obtain x y where xy: "(x, y) \<in> set (zip a b)" "e = f x y" by auto
  then have "x \<in> set a" "y \<in> set b" by (auto dest: set_zip_leftD set_zip_rightD)
  then have "length x = p" "length y = q" using assms(1,2) by (auto simp: is2_row)
  then show "length e = r" using xy(2) assms(3) by simp
qed

lemma concat2d_shape:
  assumes "is2 m p a" "is2 m q b"
  shows "\<exists>y. concat2d a b = Inr y \<and> is2 m (p + q) y"
proof -
  have "is2 m (p + q) (map2 (@) a b)"
    using assms by (rule is2_map2) simp
  then show ?thesis using assms by (simp add: concat2d_def is2_def)
qed

lemma slice2D_columns_shape:
  assumes "is2 m n t" "c0 + w \<le> n" "0 < m"
  shows "\<exists>y. slice2D t (0, c0) (m, w) = Inr y \<and> is2 m w y"
proof -
  have "cols t = n" using assms(1,3) by (rule is2_cols)
  moreover have "length t = m" using assms(1) by (rule is2_length)
  moreover have "is2 m w (map (\<lambda>r. take w (drop c0 r)) t)"
    using assms by (auto simp: is2_def list_all_iff)
  ultimately show ?thesis using assms(2) by (simp add: slice2D_def)
qed

lemma strict2_shape:
  assumes "is2 m n a" "is2 m n b" "0 < m"
  shows "\<exists>y. strict2 f a b = Inr y \<and> is2 m n y"
proof -
  have "cols a = n" "cols b = n" using assms by (auto intro: is2_cols)
  moreover have "is2 m n (map2 (map2 f) a b)"
    using assms(1,2) by (rule is2_map2) simp
  ultimately show ?thesis using assms by (simp add: strict2_def sameShape2_def is2_def)
qed

lemma basicLSTMCell_shape:
  assumes data: "is2 B inp data" and c: "is2 B w c" and h: "is2 B w h"
    and K: "is2 (inp + w) (4 * w) K" and b: "length b = 4 * w" and B: "0 < B"
  shows "\<exists>c' h'. basicLSTMCell fb (Some K) (Some b) data c h = Inr (c', h')
                 \<and> is2 B w c' \<and> is2 B w h'"
proof -
  obtain combined where 1: "concat2d data h = Inr combined" "is2 B (inp + w) combined"
    using concat2d_shape [OF data h] by blast
  obtain weighted where 2: "matMul combined K False False = Inr weighted" "is2 B (4 * w) weighted"
    using matMul_shape [OF 1(2) K B] by auto
  obtain res where 3: "add2 weighted [b] = Inr res" "is2 B (4 * w) res"
    using add2_bias_shape [OF 2(2) b] by blast
  have cr: "cols res = 4 * w" using 3(2) B by (rule is2_cols)
  have lr: "length res = B" using 3(2) by (rule is2_length)
  obtain ig where 4: "slice2D res (0, 0) (B, w) = Inr ig" "is2 B w ig"
    using slice2D_columns_shape [OF 3(2) _ B, of 0 w] by auto
  obtain jg where 5: "slice2D res (0, w) (B, w) = Inr jg" "is2 B w jg"
    using slice2D_columns_shape [OF 3(2) _ B, of w w] by auto
  obtain fg where 6: "slice2D res (0, w * 2) (B, w) = Inr fg" "is2 B w fg"
    using slice2D_columns_shape [OF 3(2) _ B, of "w * 2" w] by auto
  obtain og where 7: "slice2D res (0, w * 3) (B, w) = Inr og" "is2 B w og"
    using slice2D_columns_shape [OF 3(2) _ B, of "w * 3" w] by auto
  obtain keep where 8:
    "mulStrict c (map (map sigmoid) (map (map (\<lambda>x. fb + x)) fg)) = Inr keep" "is2 B w keep"
    unfolding mulStrict_def
    using strict2_shape [OF c is2_map_map [OF is2_map_map [OF 6(2)]] B] by blast
  obtain fresh where 9:
    "mulStrict (map (map sigmoid) ig) (map (map tanh) jg) = Inr fresh" "is2 B w fresh"
    unfolding mulStrict_def
    using strict2_shape [OF is2_map_map [OF 4(2)] is2_map_map [OF 5(2)] B] by blast
  obtain newC where 10: "addStrict keep fresh = Inr newC" "is2 B w newC"
    unfolding addStrict_def using strict2_shape [OF 8(2) 9(2) B] by blast
  obtain newH where 11:
    "mulStrict (map (map tanh) newC) (map (map sigmoid) og) = Inr newH" "is2 B w newH"
    unfolding mulStrict_def
    using strict2_shape [OF is2_map_map [OF 10(2)] is2_map_map [OF 7(2)] B] by blast
  have dv: "4 dvd cols res" and q: "cols res div 4 = w"
    using cr by simp_all
  have "basicLSTMCell fb (Some K) (Some b) data c h = Inr (newC, newH)"
    by (simp only: basicLSTMCell_def 1(1) 2(1) 3(1) 4(1) 5(1) 6(1) 7(1) 8(1) 9(1) 10(1) 11(1)
        bindE.simps defined_def option.simps Let_def dv q lr not_True_eq_False if_False)
  then show ?thesis using 10(2) 11(2) by blast
qed

text \<open>
  The layers of a well-shaped recurrent stack: layer \<open>i\<close> of width \<open>w\<close> has a bias of
  length \<open>4 * w\<close> and a kernel of shape \<open>[input + w, 4 * w]\<close>, where the input of layer 0 is
  the stack's input and the input of a later layer is the width of the layer before.
\<close>

fun layers_ok :: "nat \<Rightarrow> LayerVars list \<Rightarrow> nat list \<Rightarrow> bool" where
  "layers_ok inp [] [] = True"
| "layers_ok inp (lv # lvs) (w # ws) =
     (case (kernel lv, bias lv) of
        (Some K, Some b) \<Rightarrow> length b = 4 * w \<and> is2 (inp + w) (4 * w) K \<and> layers_ok w lvs ws
      | _ \<Rightarrow> False)"
| "layers_ok inp lvs ws = False"

lemma layers_ok_length: "layers_ok inp lvs ws \<Longrightarrow> length lvs = length ws"
  by (induction inp lvs ws rule: layers_ok.induct) (auto split: option.splits)

lemma multiRNNCell_shape:
  assumes "layers_ok inp lvs ws" "is2 B inp data"
    "list_all2 (\<lambda>c w. is2 B w c) cs ws" "list_all2 (\<lambda>h w. is2 B w h) hs ws" "0 < B"
  shows "\<exists>cs' hs'. multiRNNCell (map cellOf lvs) data cs hs = Inr (cs', hs')
           \<and> list_all2 (\<lambda>c w. is2 B w c) cs' ws \<and> list_all2 (\<lambda>h w. is2 B w h) hs' ws"
  using assms(1-4)
proof (induction lvs arbitrary: inp ws data cs hs)
  case Nil
  then have "ws = []" by (cases ws) simp_all
  then show ?case using Nil by simp
next
  case (Cons lv lvs)
  from Cons.prems(1) obtain w ws' where ws: "ws = w # ws'" by (cases ws) simp_all
  from Cons.prems(1) obtain K b where lv: "kernel lv = Some K" "bias lv = Some b"
    "length b = 4 * w" "is2 (inp + w) (4 * w) K" "layers_ok w lvs ws'"
    unfolding ws by (auto split: option.splits)
  from Cons.prems(3) obtain ci cr where cs: "cs = ci # cr" "is2 B w ci"
    "list_all2 (\<lambda>c w. is2 B w c) cr ws'"
    unfolding ws by (auto simp: list_all2_Cons2)
  from Cons.prems(4) obtain hi hr where hs: "hs = hi # hr" "is2 B w hi"
    "list_all2 (\<lambda>h w. is2 B w h) hr ws'"
    unfolding ws by (auto simp: list_all2_Cons2)
  obtain c' h' where cell: "basicLSTMCell forgetBias (Some K) (Some b) data ci hi = Inr (c', h')"
    "is2 B w c'" "is2 B w h'"
    using basicLSTMCell_shape [OF Cons.prems(2) cs(2) hs(2) lv(4) lv(3) assms(5)] by blast
  obtain cs' hs' where rest: "multiRNNCell (map cellOf lvs) h' cr hr = Inr (cs', hs')"
    "list_all2 (\<lambda>c w. is2 B w c) cs' ws'" "list_all2 (\<lambda>h w. is2 B w h) hs' ws'"
    using Cons.IH [OF lv(5) cell(3) cs(3) hs(3)] by blast
  have "multiRNNCell (map cellOf (lv # lvs)) data cs hs = Inr (c' # cs', h' # hs')"
    using cell(1) rest(1) lv(1,2) by (simp add: cs hs cellOf_def lstm_def)
  then show ?case using cell rest by (simp add: ws)
qed

lemma decode_init_shape:
  assumes "is2 B S ini" "0 < B"
  shows "layers_ok inp lvs ws \<Longrightarrow> off0 + 2 * sum_list ws \<le> S \<Longrightarrow>
     \<exists>cs hs off. foldE (decode_init_step ini B) (cells0, c0, h0, off0) lvs
                   = Inr (cells0 @ map cellOf lvs, c0 @ cs, h0 @ hs, off)
        \<and> list_all2 (\<lambda>c w. is2 B w c) cs ws \<and> list_all2 (\<lambda>h w. is2 B w h) hs ws"
proof (induction lvs arbitrary: inp ws cells0 c0 h0 off0)
  case Nil
  then have "ws = []" by (cases ws) simp_all
  then show ?case by simp
next
  case (Cons lv lvs)
  from Cons.prems(1) obtain w ws' where ws: "ws = w # ws'" by (cases ws) simp_all
  from Cons.prems(1) obtain K b where lv: "bias lv = Some b" "length b = 4 * w"
    "layers_ok w lvs ws'"
    unfolding ws by (auto split: option.splits)
  have off: "off0 + w \<le> S" "(off0 + w) + w \<le> S" "(off0 + w + w) + 2 * sum_list ws' \<le> S"
    using Cons.prems(2) unfolding ws by simp_all
  obtain ci where ci: "slice2D ini (0, off0) (B, w) = Inr ci" "is2 B w ci"
    using slice2D_columns_shape [OF assms(1) off(1) assms(2)] by blast
  obtain hi where hi: "slice2D ini (0, off0 + w) (B, w) = Inr hi" "is2 B w hi"
    using slice2D_columns_shape [OF assms(1) off(2) assms(2)] by blast
  have step: "decode_init_step ini B (cells0, c0, h0, off0) lv
              = Inr (cells0 @ [cellOf lv], c0 @ [ci], h0 @ [hi], off0 + w + w)"
    by (simp add: decode_init_step_def lv defined_def quarter_def ci hi cellOf_def)
  obtain cs hs off' where rest:
    "foldE (decode_init_step ini B) (cells0 @ [cellOf lv], c0 @ [ci], h0 @ [hi], off0 + w + w) lvs
       = Inr ((cells0 @ [cellOf lv]) @ map cellOf lvs, (c0 @ [ci]) @ cs, (h0 @ [hi]) @ hs, off')"
    "list_all2 (\<lambda>c w. is2 B w c) cs ws'" "list_all2 (\<lambda>h w. is2 B w h) hs ws'"
    using Cons.IH [OF lv(3) off(3)] by blast
  have "foldE (decode_init_step ini B) (cells0, c0, h0, off0) (lv # lvs)
        = Inr (cells0 @ map cellOf (lv # lvs), c0 @ (ci # cs), h0 @ (hi # hs), off')"
    using step rest(1) by simp
  moreover have "list_all2 (\<lambda>c w. is2 B w c) (ci # cs) ws" "list_all2 (\<lambda>h w. is2 B w h) (hi # hs) ws"
    using ci(2) hi(2) rest(2,3) by (simp_all add: ws)
  ultimately show ?case by blast
qed

lemma argMax_fold:
  "fst (foldl (\<lambda>(i, m) j. if m < v ! j then (j, v ! j) else (i, m)) (i0, m0) js)
   \<in> insert i0 (set js)"
proof (induction js arbitrary: i0 m0)
  case Nil
  show ?case by simp
next
  case (Cons j js)
  show ?case using Cons [of j "v ! j"] Cons [of i0 m0] by auto
qed

lemma argMaxRow_less: "v \<noteq> [] \<Longrightarrow> argMaxRow v < length v"
proof -
  assume "v \<noteq> []"
  then obtain x xs where v: "v = x # xs" by (cases v) auto
  have "argMaxRow v \<in> insert 0 (set [1..<length v])"
    unfolding argMaxRow_def v list.case by (rule argMax_fold)
  then show ?thesis using v by auto
qed

text \<open>
  A decoder whose weights fit: \<open>Z\<close> is the latent width and \<open>ws\<close> the widths of the layers.
  The stack's input is the previous output joined with \<open>z\<close>; the initial-state projection
  yields at least the \<open>2 * w\<close> columns every layer takes; the output projection reads the last
  layer and yields \<open>outputDims\<close> logits for the argmax head (at least 2, as \<^verbatim>\<open>oneHot\<close> needs)
  or at least \<open>numHidden + numDims\<close> for the NADE head, whose model has at least two
  dimensions and weights of shape \<open>[numDims, numHidden]\<close>.
\<close>

definition decoder_ok :: "Decoder \<Rightarrow> nat \<Rightarrow> nat list \<Rightarrow> bool" where
  "decoder_ok d Z ws \<longleftrightarrow>
     ws \<noteq> [] \<and> 0 < Z \<and> 0 < last ws \<and>
     layers_ok (outputDims d + Z) (lstmCellVars d) ws \<and>
     (case (kernel (zToInitStateVars d), bias (zToInitStateVars d)) of
        (Some K, Some b) \<Rightarrow> is2 Z (length b) K \<and> 2 * sum_list ws \<le> length b
      | _ \<Rightarrow> False) \<and>
     (case (kernel (outputProjectVars d), bias (outputProjectVars d)) of
        (Some K, Some b) \<Rightarrow>
          is2 (last ws) (length b) K \<and>
          (case nade d of
             None \<Rightarrow> outputDims d = length b \<and> 2 \<le> length b
           | Some n \<Rightarrow>
               outputDims d = numDims n \<and> numHidden n + numDims n \<le> length b \<and>
               2 \<le> numDims n \<and>
               is2 (numDims n) (numHidden n) (encWeights n) \<and>
               is2 (numDims n) (numHidden n) (decWeightsT n))
      | _ \<Rightarrow> False)"

text \<open>
  What one time step records: for the argmax head one index below \<open>outputDims\<close> per batch
  element, for the NADE head \<open>numDims\<close> values that are 0 or 1.
\<close>

definition sampleWidth :: "Decoder \<Rightarrow> nat" where
  "sampleWidth d = (case nade d of None \<Rightarrow> 1 | Some n \<Rightarrow> numDims n)"

definition recorded :: "Decoder \<Rightarrow> real list \<Rightarrow> bool" where
  "recorded d v \<longleftrightarrow>
     (case nade d of
        None \<Rightarrow> \<exists>k < outputDims d. v = [real k]
      | Some n \<Rightarrow> length v = numDims n \<and> (\<forall>x \<in> set v. x = 0 \<or> x = 1))"

lemma recorded_length: "recorded d v \<Longrightarrow> length v = sampleWidth d"
  by (auto simp: recorded_def sampleWidth_def split: option.splits)

lemma decode_step_shape:
  assumes ok: "decoder_ok d Z ws" and z: "is2 B Z z" and B: "0 < B"
    and c: "list_all2 (\<lambda>c w. is2 B w c) c ws" and h: "list_all2 (\<lambda>h w. is2 B w h) h ws"
    and ni: "is2 B (outputDims d) nextInput"
  shows "\<exists>c' h' nextInput' s.
           decode_step d z B (map cellOf (lstmCellVars d)) (c, h, nextInput, samples) i
             = Inr (c', h', nextInput', samples @ [s])
           \<and> list_all2 (\<lambda>c w. is2 B w c) c' ws \<and> list_all2 (\<lambda>h w. is2 B w h) h' ws
           \<and> is2 B (outputDims d) nextInput' \<and> length s = B \<and> list_all (recorded d) s"
proof -
  from ok obtain Ko bo where out: "kernel (outputProjectVars d) = Some Ko"
    "bias (outputProjectVars d) = Some bo" "is2 (last ws) (length bo) Ko"
    by (auto simp: decoder_ok_def split: option.splits)
  from ok have ws: "ws \<noteq> []" "0 < last ws" "layers_ok (outputDims d + Z) (lstmCellVars d) ws"
    by (simp_all add: decoder_ok_def)
  obtain inp where inp: "concat2d nextInput z = Inr inp" "is2 B (outputDims d + Z) inp"
    using concat2d_shape [OF ni z] by blast
  obtain c' h' where cell: "multiRNNCell (map cellOf (lstmCellVars d)) inp c h = Inr (c', h')"
    "list_all2 (\<lambda>c w. is2 B w c) c' ws" "list_all2 (\<lambda>h w. is2 B w h) h' ws"
    using multiRNNCell_shape [OF ws(3) inp(2) c h B] by blast
  have h'ne: "h' \<noteq> []" using cell(3) ws(1) by auto
  have "is2 B (last ws) (last h')"
    using cell(3) ws(1) h'ne
    by (simp add: list_all2_conv_all_nth last_conv_nth)
  then obtain logits where lg: "dense (outputProjectVars d) (last h') = Inr logits"
    "is2 B (length bo) logits"
    using dense_shape [OF _ out(1) out(3) out(2) refl B] ws(2) by auto
  have start: "decode_step d z B (map cellOf (lstmCellVars d)) (c, h, nextInput, samples) i =
     (case nade d of
        None \<Rightarrow>
          bindE (oneHot (argMax logits) (outputDims d)) (\<lambda>nextInput'.
          bindE (reshape2D (map real (argMax logits)) B 1) (\<lambda>timeSamples.
          Inr (c', h', nextInput', samples @ [timeSamples])))
      | Some n \<Rightarrow>
          bindE (slice2D logits (0, 0) (B, numHidden n)) (\<lambda>encBias.
          bindE (slice2D logits (0, numHidden n) (B, numDims n)) (\<lambda>decBias.
          bindE (Nade_sample n encBias decBias) (\<lambda>nextInput'.
          Inr (c', h', nextInput', samples @ [nextInput'])))))"
    by (simp add: decode_step_def inp(1) cell(1) h'ne lg(1) Let_def del: One_nat_def
        split: option.splits)
  show ?thesis
  proof (cases "nade d")
    case None
    with ok out have od: "outputDims d = length bo" "2 \<le> length bo"
      by (auto simp: decoder_ok_def)
    let ?labels = "argMax logits"
    have ll: "length ?labels = B" using lg(2) by (simp add: argMax_def is2_length)
    have lt: "l < outputDims d" if "l \<in> set ?labels" for l
    proof -
      from that obtain r where r: "r \<in> set logits" "l = argMaxRow r" by (auto simp: argMax_def)
      then have "length r = length bo" using lg(2) by (simp add: is2_row)
      then have "r \<noteq> []" using od(2) by auto
      then show ?thesis using argMaxRow_less [of r] r \<open>length r = length bo\<close> od by simp
    qed
    have oh: "oneHot ?labels (outputDims d)
              = Inr (map (\<lambda>l. map (\<lambda>k. if k = l then 1 else 0) [0..<outputDims d]) ?labels)"
      using od by (simp add: oneHot_def)
    have oh2: "is2 B (outputDims d)
                 (map (\<lambda>l. map (\<lambda>k. if k = l then 1 else 0) [0..<outputDims d]) ?labels)"
      using ll by (auto simp: is2_def list_all_iff)
    have rs: "reshape2D (map real ?labels) B 1 = Inr (map (\<lambda>x. [x]) (map real ?labels))"
      using ll by (simp add: reshape2D_def chunk_singletons del: One_nat_def)
    have rec: "list_all (recorded d) (map (\<lambda>x. [x]) (map real ?labels))"
      using lt by (auto simp: list_all_iff recorded_def None)
    show ?thesis
      unfolding start None option.case oh rs bindE.simps
      using cell(2,3) oh2 rec ll by simp
  next
    case (Some n)
    with ok out have n: "outputDims d = numDims n" "numHidden n + numDims n \<le> length bo"
      "2 \<le> numDims n" "is2 (numDims n) (numHidden n) (encWeights n)"
      "is2 (numDims n) (numHidden n) (decWeightsT n)"
      by (auto simp: decoder_ok_def)
    obtain encBias where eb: "slice2D logits (0, 0) (B, numHidden n) = Inr encBias"
      "is2 B (numHidden n) encBias"
      using slice2D_columns_shape [OF lg(2) _ B, of 0 "numHidden n"] n(2) by auto
    obtain decBias where db: "slice2D logits (0, numHidden n) (B, numDims n) = Inr decBias"
      "is2 B (numDims n) decBias"
      using slice2D_columns_shape [OF lg(2) n(2) B] by auto
    let ?s = "map2 (sample_row n) encBias decBias"
    have ns: "Nade_sample n encBias decBias = Inr ?s"
      using n(4,5) refl refl eb(2) db(2) B n(3) by (rule Nade_sample_rows)
    have l: "length encBias = B" "length decBias = B"
      using eb(2) db(2) by (simp_all add: is2_length)
    have s2: "is2 B (outputDims d) ?s"
      using l by (auto simp: is2_def list_all_iff sample_row_binary n(1) dest!: set_zip_leftD)
    have rec: "list_all (recorded d) ?s"
      using sample_row_binary(2) [of _ n]
      by (auto simp: list_all_iff recorded_def Some sample_row_binary(1))
    show ?thesis
      unfolding start Some option.case eb(1) db(1) ns bindE.simps
      using cell(2,3) s2 rec l by simp
  qed
qed


lemma decode_loop_shape:
  assumes ok: "decoder_ok d Z ws" and z: "is2 B Z z" and B: "0 < B"
    and c: "list_all2 (\<lambda>c w. is2 B w c) c ws" and h: "list_all2 (\<lambda>h w. is2 B w h) h ws"
    and ni: "is2 B (outputDims d) nextInput"
  shows "\<exists>c' h' nextInput' samples.
           foldE (decode_step d z B (map cellOf (lstmCellVars d))) (c, h, nextInput, []) [0..<L]
             = Inr (c', h', nextInput', samples)
           \<and> list_all2 (\<lambda>c w. is2 B w c) c' ws \<and> list_all2 (\<lambda>h w. is2 B w h) h' ws
           \<and> is2 B (outputDims d) nextInput' \<and> length samples = L
           \<and> list_all (\<lambda>s. length s = B \<and> list_all (recorded d) s) samples"
proof (induction L)
  case 0
  show ?case using c h ni by simp
next
  case (Suc L)
  then obtain c' h' ni' samples where st:
    "foldE (decode_step d z B (map cellOf (lstmCellVars d))) (c, h, nextInput, []) [0..<L]
       = Inr (c', h', ni', samples)"
    "list_all2 (\<lambda>c w. is2 B w c) c' ws" "list_all2 (\<lambda>h w. is2 B w h) h' ws"
    "is2 B (outputDims d) ni'" "length samples = L"
    "list_all (\<lambda>s. length s = B \<and> list_all (recorded d) s) samples"
    by blast
  obtain c'' h'' ni'' s where step:
    "decode_step d z B (map cellOf (lstmCellVars d)) (c', h', ni', samples) L
       = Inr (c'', h'', ni'', samples @ [s])"
    "list_all2 (\<lambda>c w. is2 B w c) c'' ws" "list_all2 (\<lambda>h w. is2 B w h) h'' ws"
    "is2 B (outputDims d) ni''" "length s = B" "list_all (recorded d) s"
    using decode_step_shape [OF ok z B st(2,3,4)] by blast
  have "foldE (decode_step d z B (map cellOf (lstmCellVars d))) (c, h, nextInput, []) [0..<Suc L]
        = Inr (c'', h'', ni'', samples @ [s])"
    by (simp add: foldE_snoc st(1) step(1))
  then show ?case using step(2-6) st(5,6) by auto
qed

lemma stack2_samples:
  assumes "2 \<le> length samples" "0 < B"
    and "list_all (\<lambda>s. length s = B \<and> list_all (\<lambda>v. length v = w) s) samples"
  shows "stack2 samples = Inr (map (\<lambda>b. map (\<lambda>s. s ! b) samples) [0..<B])"
proof -
  obtain t ts where t: "samples = t # ts" using assms(1) by (cases samples) auto
  have shape: "length s = B \<and> cols s = w" if "s \<in> set samples" for s
  proof -
    have "is2 B w s" using assms(3) that by (simp add: is2_def list_all_iff)
    then show ?thesis using assms(2) by (simp add: is2_length is2_cols)
  qed
  have "list_all (\<lambda>s. sameShape2 s (hd samples)) samples"
    using shape t by (auto simp: list_all_iff sameShape2_def)
  moreover have "length (hd samples) = B" using shape t by simp
  ultimately show ?thesis
    unfolding stack2_def using assms(1) by simp
qed

lemma decode_general:
  assumes ok: "decoder_ok d Z ws" and z: "is2 B Z z" and B: "0 < B"
  shows "\<exists>samples. length samples = L \<and>
           list_all (\<lambda>s. length s = B \<and> list_all (recorded d) s) samples \<and>
           Decoder_decode d z L
             = (if L < 2 then Inl RuntimeError
                else Inr (map (\<lambda>b. map (\<lambda>s. s ! b) samples) [0..<B]))"
proof -
  from ok obtain Kz bz where zi: "kernel (zToInitStateVars d) = Some Kz"
    "bias (zToInitStateVars d) = Some bz" "is2 Z (length bz) Kz" "2 * sum_list ws \<le> length bz"
    by (auto simp: decoder_ok_def split: option.splits)
  from ok have ws: "0 < Z" "layers_ok (outputDims d + Z) (lstmCellVars d) ws"
    by (simp_all add: decoder_ok_def)
  have lz: "length z = B" using z by (rule is2_length)
  obtain pre where pre: "dense (zToInitStateVars d) z = Inr pre" "is2 B (length bz) pre"
    using dense_shape [OF z zi(1) zi(3) zi(2) refl B] ws(1) by auto
  have ini: "is2 B (length bz) (map (map tanh) pre)"
    using pre(2) by (rule is2_map_map)
  obtain cs hs off where init:
    "foldE (decode_init_step (map (map tanh) pre) B) ([], [], [], 0) (lstmCellVars d)
       = Inr (map cellOf (lstmCellVars d), cs, hs, off)"
    "list_all2 (\<lambda>c w. is2 B w c) cs ws" "list_all2 (\<lambda>h w. is2 B w h) hs ws"
    using decode_init_shape [OF ini B ws(2), of 0 "[]" "[]" "[]"] zi(4) by auto
  have zs: "is2 B (outputDims d) (zeros B (outputDims d))"
    by (simp add: zeros_def is2_def list_all_iff)
  have run: "Decoder_decode d z L =
        bindE (foldE (decode_step d z B (map cellOf (lstmCellVars d)))
                 (cs, hs, zeros B (outputDims d), []) [0..<L])
          (\<lambda>(c', h', nextInput', samples). stack2 samples)"
    by (simp add: Decoder_decode_def Let_def lz pre(1) init(1))
  obtain c' h' ni' samples where loop:
    "foldE (decode_step d z B (map cellOf (lstmCellVars d)))
       (cs, hs, zeros B (outputDims d), []) [0..<L] = Inr (c', h', ni', samples)"
    "length samples = L" "list_all (\<lambda>s. length s = B \<and> list_all (recorded d) s) samples"
    using decode_loop_shape [OF ok z B init(2,3) zs, of L] by blast
  have "Decoder_decode d z L
          = (if L < 2 then Inl RuntimeError
             else Inr (map (\<lambda>b. map (\<lambda>s. s ! b) samples) [0..<B]))"
  proof (cases "L < 2")
    case True
    then show ?thesis using loop(2) by (simp add: run loop(1) stack_few)
  next
    case False
    have "list_all (\<lambda>s. length s = B \<and> list_all (\<lambda>v. length v = sampleWidth d) s) samples"
      using loop(3) by (auto simp: list_all_iff recorded_length)
    moreover have "2 \<le> length samples" using loop(2) False by simp
    ultimately have "stack2 samples = Inr (map (\<lambda>b. map (\<lambda>s. s ! b) samples) [0..<B])"
      using B by (intro stack2_samples) auto
    then show ?thesis using False by (simp add: run loop(1))
  qed
  then show ?thesis using loop(2,3) by blast
qed

text \<open>
  Claim C2, as the code has it. For a decoder whose weights fit, a latent batch \<open>z [B, Z]\<close>
  with a non-empty batch and every length \<open>L \<ge> 2\<close>, \<open>decode\<close> returns exactly \<open>L\<close> time
  steps: without a NADE model a tensor of shape \<open>[B, L, 1]\<close> whose entries are indices below
  \<open>outputDims\<close>, with a NADE model a tensor of shape \<open>[B, L, numDims]\<close> whose entries are 0
  or 1. For \<open>L = 0\<close> no step is recorded, for \<open>L = 1\<close> one step is; in both cases
  \<^verbatim>\<open>dl.stack\<close>, which needs two tensors, fails.
\<close>

theorem decode_steps:
  assumes "decoder_ok d Z ws" and "is2 B Z z" and "0 < B"
  shows "(L < 2 \<longrightarrow> Decoder_decode d z L = Inl RuntimeError) \<and>
     (2 \<le> L \<longrightarrow>
        (\<exists>out. Decoder_decode d z L = Inr out \<and>
           (case nade d of
              None \<Rightarrow> is3 B L 1 out \<and>
                (\<forall>b < B. \<forall>t < L. \<exists>k < outputDims d. out ! b ! t = [real k])
            | Some n \<Rightarrow> is3 B L (numDims n) out \<and>
                (\<forall>b < B. \<forall>t < L. \<forall>x \<in> set (out ! b ! t). x = 0 \<or> x = 1))))"
proof -
  obtain samples where s: "length samples = L"
    "list_all (\<lambda>s. length s = B \<and> list_all (recorded d) s) samples"
    "Decoder_decode d z L
       = (if L < 2 then Inl RuntimeError
          else Inr (map (\<lambda>b. map (\<lambda>s. s ! b) samples) [0..<B]))"
    using decode_general [OF assms, of L] by blast
  let ?out = "map (\<lambda>b. map (\<lambda>s. s ! b) samples) [0..<B]"
  have rec: "recorded d (?out ! b ! t)" if "b < B" "t < L" for b t
  proof -
    have "samples ! t \<in> set samples" using that s(1) by simp
    then have "length (samples ! t) = B" "list_all (recorded d) (samples ! t)"
      using s(2) by (auto simp: list_all_iff)
    then have "recorded d (samples ! t ! b)" using that(1) by (simp add: list_all_length)
    then show ?thesis using that s(1) by simp
  qed
  have shape: "is3 B L (sampleWidth d) ?out"
    unfolding is3_def is2_def list_all_length
    using rec s(1) by (auto simp: recorded_length)
  have head: "case nade d of
          None \<Rightarrow> is3 B L 1 ?out \<and>
            (\<forall>b < B. \<forall>t < L. \<exists>k < outputDims d. ?out ! b ! t = [real k])
        | Some n \<Rightarrow> is3 B L (numDims n) ?out \<and>
            (\<forall>b < B. \<forall>t < L. \<forall>x \<in> set (?out ! b ! t). x = 0 \<or> x = 1)"
  proof (cases "nade d")
    case None
    then show ?thesis using shape rec by (simp add: sampleWidth_def recorded_def)
  next
    case (Some n)
    then show ?thesis using shape rec by (simp add: sampleWidth_def recorded_def)
  qed
  show ?thesis
  proof (intro conjI impI)
    assume "L < 2"
    then show "Decoder_decode d z L = Inl RuntimeError" using s(3) by simp
  next
    assume "2 \<le> L"
    then have "Decoder_decode d z L = Inr ?out" using s(3) by simp
    then show "\<exists>out. Decoder_decode d z L = Inr out \<and>
           (case nade d of
              None \<Rightarrow> is3 B L 1 out \<and>
                (\<forall>b < B. \<forall>t < L. \<exists>k < outputDims d. out ! b ! t = [real k])
            | Some n \<Rightarrow> is3 B L (numDims n) out \<and>
                (\<forall>b < B. \<forall>t < L. \<forall>x \<in> set (out ! b ! t). x = 0 \<or> x = 1))"
      using head by blast
  qed
qed

text \<open>
  Two decoders of one layer of width 1, for latent vectors of width 1 and two output
  dimensions: one with the argmax head, one with a NADE head of one hidden unit.
\<close>

definition argmax_decoder :: Decoder where
  "argmax_decoder =
     \<lparr>lstmCellVars =
        [\<lparr>kernel = Some [[0, 0, 0, 0], [0, 0, 0, 0], [0, 0, 0, 0], [0, 0, 0, 0]],
          bias = Some [0, 0, 0, 0]\<rparr>],
      zToInitStateVars = \<lparr>kernel = Some [[0, 0]], bias = Some [0, 0]\<rparr>,
      outputProjectVars = \<lparr>kernel = Some [[0, 0]], bias = Some [0, 0]\<rparr>,
      dec_zDims = 1, outputDims = 2, nade = None\<rparr>"

definition nade_decoder :: Decoder where
  "nade_decoder =
     \<lparr>lstmCellVars =
        [\<lparr>kernel = Some [[0, 0, 0, 0], [0, 0, 0, 0], [0, 0, 0, 0], [0, 0, 0, 0]],
          bias = Some [0, 0, 0, 0]\<rparr>],
      zToInitStateVars = \<lparr>kernel = Some [[0, 0]], bias = Some [0, 0]\<rparr>,
      outputProjectVars = \<lparr>kernel = Some [[0, 0, 0]], bias = Some [0, 0, 0]\<rparr>,
      dec_zDims = 1, outputDims = 2,
      nade = Some \<lparr>encWeights = [[0], [0]], decWeightsT = [[0], [0]],
                   numDims = 2, numHidden = 1\<rparr>\<rparr>"

lemma decoder_ok_examples: "decoder_ok argmax_decoder 1 [1]" "decoder_ok nade_decoder 1 [1]"
  by (simp_all add: decoder_ok_def argmax_decoder_def nade_decoder_def is2_def)

theorem decode_steps_witness:
  "Decoder_decode argmax_decoder [[0]] 0 = Inl RuntimeError \<and>
   Decoder_decode nade_decoder [[0]] 1 = Inl RuntimeError \<and>
   (\<exists>out. Decoder_decode argmax_decoder [[0]] 2 = Inr out \<and> is3 1 2 1 out \<and>
      (\<forall>b < 1. \<forall>t < 2. \<exists>k < 2. out ! b ! t = [real k])) \<and>
   (\<exists>out. Decoder_decode nade_decoder [[0]] 2 = Inr out \<and> is3 1 2 2 out \<and>
      (\<forall>b < 1. \<forall>t < 2. \<forall>x \<in> set (out ! b ! t). x = 0 \<or> x = 1))"
  using decode_steps [OF decoder_ok_examples(1), of 1 "[[0]]" 0]
    decode_steps [OF decoder_ok_examples(2), of 1 "[[0]]" 1]
    decode_steps [OF decoder_ok_examples(1), of 1 "[[0]]" 2]
    decode_steps [OF decoder_ok_examples(2), of 1 "[[0]]" 2]
  by (simp add: is2_def argmax_decoder_def nade_decoder_def)

text \<open>
  The claim as it is written fails on the argmax decoder: \<open>decode z 0\<close> raises the runtime's
  error instead of returning an empty time axis, and two steps on a batch of one have shape
  \<open>[1, 2, 1]\<close>, not \<open>[1, 2, outputDims] = [1, 2, 2]\<close>.
\<close>

lemma four: "4 dvd Suc (Suc (Suc (Suc 0)))" "Suc (Suc (Suc (Suc 0))) div 4 = Suc 0"
proof -
  have e: "Suc (Suc (Suc (Suc 0))) = 4" by simp
  show "4 dvd Suc (Suc (Suc (Suc 0)))" unfolding e by simp
  show "Suc (Suc (Suc (Suc 0))) div 4 = Suc 0" unfolding e by simp
qed

lemma ex_dense_init: "dense \<lparr>kernel = Some [[0, 0]], bias = Some [0, 0]\<rparr> [[0]] = Inr [[0, 0]]"
  by (simp add: dense_def defined_def matMul_def transpose2_def cols_def dot_def add2_def
      add1_def broadcast_def Let_def)

lemma ex_cell:
  "basicLSTMCell forgetBias
     (Some [[0, 0, 0, 0], [0, 0, 0, 0], [0, 0, 0, 0], [0, 0, 0, 0]]) (Some [0, 0, 0, 0])
     [[x, y, 0]] [[0]] [[0]] = Inr ([[0]], [[0]])"
  by (simp add: basicLSTMCell_def concat2d_def defined_def matMul_def transpose2_def cols_def
      dot_def add2_def add1_def broadcast_def slice2D_def mulStrict_def addStrict_def
      strict2_def sameShape2_def Let_def four)


lemma ex_decode_prefix:
  "Decoder_decode argmax_decoder [[0]] n =
     bindE (foldE (decode_step argmax_decoder [[0]] (Suc 0)
                     [\<lambda>data c h. lstm
                         \<lparr>kernel = Some [[0, 0, 0, 0], [0, 0, 0, 0], [0, 0, 0, 0], [0, 0, 0, 0]],
                          bias = Some [0, 0, 0, 0]\<rparr> data (c, h)])
              ([[[0]]], [[[0]]], [[0, 0]], []) [0..<n])
       (\<lambda>(c', h', nextInput', samples). stack2 samples)"
proof -
  have d: "dense (zToInitStateVars argmax_decoder) [[0]] = Inr [[0, 0]]"
    by (simp add: argmax_decoder_def ex_dense_init)
  have i: "foldE (decode_init_step [[0, 0]] (Suc 0)) ([], [], [], 0) (lstmCellVars argmax_decoder)
           = Inr ([\<lambda>data c h. lstm
                     \<lparr>kernel = Some [[0, 0, 0, 0], [0, 0, 0, 0], [0, 0, 0, 0], [0, 0, 0, 0]],
                      bias = Some [0, 0, 0, 0]\<rparr> data (c, h)], [[[0]]], [[[0]]], 2)"
    by (simp add: argmax_decoder_def decode_init_step_def defined_def quarter_def four
        slice2D_def cols_def Let_def)
  have z: "zeros (Suc 0) (outputDims argmax_decoder) = [[0, 0]]"
    by (simp add: zeros_def argmax_decoder_def numeral_2_eq_2)
  show ?thesis
    by (simp add: Decoder_decode_def Let_def d i z)
qed

lemma ex_decode_step:
  "decode_step argmax_decoder [[0]] (Suc 0)
     [\<lambda>data c h. lstm
         \<lparr>kernel = Some [[0, 0, 0, 0], [0, 0, 0, 0], [0, 0, 0, 0], [0, 0, 0, 0]],
          bias = Some [0, 0, 0, 0]\<rparr> data (c, h)]
     ([[[0]]], [[[0]]], [[x, y]], samples) i
   = Inr ([[[0]]], [[[0]]], [[1, 0]], samples @ [[[0]]])"
  by (simp add: decode_step_def argmax_decoder_def concat2d_def lstm_def ex_cell ex_dense_init
      argMax_def argMaxRow_def oneHot_def reshape2D_def chunk_def Let_def numeral_2_eq_2)

theorem decode_counterexample:
  "Decoder_decode argmax_decoder [[0]] 0 = Inl RuntimeError \<and>
   Decoder_decode argmax_decoder [[0]] 2 = Inr [[[0], [0]]] \<and>
   nade argmax_decoder = None \<and> outputDims argmax_decoder = 2 \<and>
   \<not> is3 1 2 2 [[[0 :: real], [0]]]"
proof (intro conjI)
  show "Decoder_decode argmax_decoder [[0]] 0 = Inl RuntimeError"
    by (simp add: ex_decode_prefix stack2_def)
  have two: "[0..<2] = [0, Suc 0]" by (simp add: numeral_2_eq_2)
  show "Decoder_decode argmax_decoder [[0]] 2 = Inr [[[0], [0]]]"
    unfolding ex_decode_prefix two
    by (simp add: ex_decode_step stack2_def sameShape2_def cols_def)
  show "nade argmax_decoder = None" "outputDims argmax_decoder = 2"
    by (simp_all add: argmax_decoder_def)
  show "\<not> is3 1 2 2 [[[0 :: real], [0]]]"
    by (simp add: is3_def is2_def)
qed





text \<open>A NADE model of two dimensions and one hidden unit.\<close>

definition example_nade :: Nade where
  "example_nade = \<lparr>encWeights = [[2], [3]], decWeightsT = [[0], [0]], numDims = 2, numHidden = 1\<rparr>"

lemma example_nade_samples: "Nade_sample example_nade [[0]] [[0, - 1]] = Inr [[1, 0]]"
proof -
  have a0: "accumulator example_nade [0] [0, - 1] 0 = [0]"
    by (simp add: accumulator_0)
  have s0: "sample_dim example_nade [0] [0, - 1] 0 = 1"
    by (simp add: sample_dim_def example_nade_def sigmoid_def dot_def)
  have a1: "accumulator example_nade [0] [0, - 1] (Suc 0) = [2]"
    unfolding accumulator_Suc a0 s0 by (simp add: example_nade_def)
  have "(1::real) < exp 1" by simp
  then have "2 < 1 + exp (1::real)" by linarith
  moreover have "0 < 1 + exp (1::real)" by (intro add_pos_pos) simp_all
  ultimately have "2 / (1 + exp (1::real)) < 1" by (simp add: divide_less_eq)
  then have e: "\<not> 1 \<le> 2 / (1 + exp (1::real))" by simp
  have s1: "sample_dim example_nade [2] [0, - 1] (Suc 0) = 0"
    by (simp add: sample_dim_def example_nade_def sigmoid_def dot_def e)
  have nd: "numDims example_nade = 2" by (simp add: example_nade_def)
  have up: "[0..<2] = [0, Suc 0]" by (simp add: numeral_2_eq_2)
  have "sample_row example_nade [0] [0, - 1] = [1, 0]"
    unfolding sample_row_eq nd up by (simp add: a0 s0 a1 s1)
  moreover have "Nade_sample example_nade [[0]] [[0, - 1]]
                 = Inr (map2 (sample_row example_nade) [[0]] [[0, - 1]])"
    by (rule Nade_sample_rows [where B = 1 and nd = 2 and H = 1])
      (simp_all add: example_nade_def is2_def)
  ultimately show ?thesis by simp
qed

theorem Nade_sample_autoregressive_witness:
  "\<exists>samples. Nade_sample example_nade [[0]] [[0, - 1]] = Inr samples \<and> is2 1 2 samples \<and>
     samples = [[1, 0]]"
  using Nade_sample_autoregressive [of example_nade 1 "[[0]]" "[[0, - 1]]"]
  by (simp add: example_nade_samples) (simp add: example_nade_def is2_def)

text \<open>
  The claim as it is written fails on a model of one dimension: its one sample is computed
  and cannot be stacked, so no \<open>[batch, numDims]\<close> result is returned.
\<close>

definition single_nade :: Nade where
  "single_nade = \<lparr>encWeights = [[2]], decWeightsT = [[0]], numDims = 1, numHidden = 1\<rparr>"

theorem Nade_sample_counterexample:
  "is2 (numDims single_nade) (numHidden single_nade) (encWeights single_nade) \<and>
   is2 (numDims single_nade) (numHidden single_nade) (decWeightsT single_nade) \<and>
   is2 1 (numHidden single_nade) [[0 :: real]] \<and> is2 1 (numDims single_nade) [[0 :: real]] \<and>
   Nade_sample single_nade [[0]] [[0]] = Inl RuntimeError"
proof -
  have "Nade_sample single_nade [[0]] [[0]] = Inl RuntimeError"
    by (rule Nade_sample_few [where B = 1 and nd = 1 and H = 1])
      (simp_all add: single_nade_def is2_def)
  then show ?thesis by (simp add: single_nade_def is2_def)
qed

end
